theory Spec2Isabelle
  imports Complex_Main
begin

section \<open>Data model\<close>

text \<open>
  The interaction's \<open>status\<close> is a string in the sources. The constructors below are
  all the values that some variant of the governance service assigns to it:
  \<open>'approved'\<close>, \<open>'pending'\<close>, \<open>'blocked'\<close> (governanceService.ts, governanceService.js,
  server.js) and \<open>'flagged'\<close>, \<open>'compliant'\<close>, \<open>'error'\<close> (governanceServiceSupabase.ts).
\<close>

datatype status = Approved | Pending | Blocked | Flagged | Compliant | ErrorStatus

text \<open>The interaction's \<open>severity\<close>: \<open>'low' | 'medium' | 'high' | 'critical'\<close>.\<close>

datatype severity_level = Low | Medium | High | Critical

fun level_rank :: "severity_level \<Rightarrow> nat" where
  "level_rank Low = 0"
| "level_rank Medium = 1"
| "level_rank High = 2"
| "level_rank Critical = 3"

text \<open>
  A violation as server.js and the Inkeep response parser build it. \<open>severity\<close> and
  \<open>confidence\<close> are JavaScript numbers; every producer in the repository assigns a
  literal (9.5, 9.0, 8.5, 7.0, 6.5, 9, 7, 5), all of them exact in binary floating point,
  and the code only compares them with integer thresholds, so they are modelled as reals.
\<close>

record violation =
  vtype :: string
  description :: string
  reason :: string
  severity :: real
  confidence :: real
  regulatoryFramework :: string

text \<open>An agent action of the services: \<open>{agentName, action, details, timestamp}\<close>.\<close>

record agent_action =
  agentName :: string
  action :: string
  details :: string
  stamp :: nat

text \<open>An agent action as server.js writes it: \<open>{agent, action, timestamp, result}\<close>.\<close>

record server_action =
  agent_s :: string
  action_s :: string
  timestamp_s :: nat
  result_s :: string

text \<open>
  A JavaScript string is a sequence of UTF-16 code units. The prompt and the response,
  whose characters the detector inspects, are lists of code units (numbers below
  65536); \<open>units\<close> gives the code units of a literal of Basic Latin characters. Texts
  that the code only stores, prints or compares as a whole (identifiers, action names,
  messages, URLs) are Isabelle strings.
\<close>

type_synonym js_string = "nat list"

definition units :: "string \<Rightarrow> js_string" where
  "units s = map of_char s"

text \<open>
  The interaction object. The field \<open>id\<close> is called \<open>ident\<close>, \<open>input\<close> and
  \<open>output\<close> are \<open>input_text\<close> and \<open>output_text\<close>, and the field \<open>severity\<close> is
  called \<open>severityBucket\<close> here (\<open>severity\<close> is the violation's number). The record
  is polymorphic in the violation and action shapes, which differ between the variants
  of the service.
\<close>

record ('v, 'a) interaction =
  ident :: string
  input_text :: js_string
  output_text :: js_string
  timestamp :: nat
  status :: status
  severityBucket :: severity_level
  violations :: "'v list"
  agentActions :: "'a list"

text \<open>A thrown JavaScript \<open>Error\<close>, with its message.\<close>

datatype js_error = JsError string

text \<open>
  The object literal with which \<open>processInteraction\<close> starts in governanceService.ts,
  governanceService.js and governanceServiceSupabase.ts: status \<open>'pending'\<close>, severity
  \<open>'low'\<close>, no violations, no actions. The generated id and the clock are arguments.
\<close>

definition pendingInteraction ::
  "string \<Rightarrow> nat \<Rightarrow> js_string \<Rightarrow> js_string \<Rightarrow> ('v, 'a) interaction" where
  "pendingInteraction interactionId now inp outp =
     \<lparr> ident = interactionId, input_text = inp, output_text = outp, timestamp = now,
       status = Pending, severityBucket = Low, violations = [], agentActions = [] \<rparr>"


section \<open>JavaScript string operations\<close>

text \<open>
  \<open>String.prototype.toLowerCase\<close> maps every code point by the lower-case mapping of the
  Unicode Character Database, without a locale. Spelled out here are the mappings of
  Basic Latin (A-Z to a-z, every other unit below 128 to itself) and of the two other
  units that map into Basic Latin: U+0130, capital I with dot above, to \<open>i\<close> followed by
  U+0307, and U+212A, the Kelvin sign, to \<open>k\<close>. The mapping of every other unit is the
  argument \<open>db\<close>, since the database is not part of the repository; it receives the text
  and the position, because a mapping may depend on the neighbours (final sigma,
  surrogate pairs), and returns the units written for that position.
\<close>

type_synonym case_db = "js_string \<Rightarrow> nat \<Rightarrow> js_string"

definition lowerUnit :: "case_db \<Rightarrow> js_string \<Rightarrow> nat \<Rightarrow> nat \<Rightarrow> js_string" where
  "lowerUnit db text i u =
     (if 65 \<le> u \<and> u \<le> 90 then [u + 32]
      else if u < 128 then [u]
      else if u = 304 then [105, 775]
      else if u = 8490 then [107]
      else db text i)"

fun lowerFrom :: "case_db \<Rightarrow> js_string \<Rightarrow> nat \<Rightarrow> js_string \<Rightarrow> js_string" where
  "lowerFrom db text i [] = []"
| "lowerFrom db text i (u # us) = lowerUnit db text i u @ lowerFrom db text (Suc i) us"

definition toLowerCase :: "case_db \<Rightarrow> js_string \<Rightarrow> js_string" where
  "toLowerCase db s = lowerFrom db s 0 s"

definition startsWith :: "'a list \<Rightarrow> 'a list \<Rightarrow> bool" where
  "startsWith t p = (take (length p) t = p)"

text \<open>\<open>t.includes(p)\<close>: \<open>p\<close> occurs in \<open>t\<close> as a contiguous substring.\<close>

fun includes_str :: "'a list \<Rightarrow> 'a list \<Rightarrow> bool" where
  "includes_str [] p = (p = [])"
| "includes_str (c # cs) p = (startsWith (c # cs) p \<or> includes_str cs p)"

text \<open>
  \<open>Array.prototype.find\<close> is \<^const>\<open>find\<close>; its result is used as a condition, and a
  string is truthy when it is not empty (\<open>undefined\<close>, here \<open>None\<close>, is falsy).
\<close>

fun truthy :: "string option \<Rightarrow> bool" where
  "truthy None = False"
| "truthy (Some s) = (s \<noteq> [])"

text \<open>The decimal digits of a number, as a template literal prints it.\<close>

function numberToString :: "nat \<Rightarrow> string" where
  "numberToString n =
     (if n < 10 then [char_of (48 + n)]
      else numberToString (n div 10) @ [char_of (48 + n mod 10)])"
  by pat_completeness auto
termination
  by (relation "measure id") auto

declare numberToString.simps [simp del]


subsection \<open>The regular expressions of the PII scanner\<close>

text \<open>
  The three patterns of server.js use only word boundaries, literal characters and
  counted repetitions of a character class, in sequence. A cursor is the code unit
  before the current position (if any) and the rest of the text; an atom maps a cursor
  to the cursors where it can stop, the longest repetition first as the backtracking
  matcher tries them.
\<close>

type_synonym cursor = "nat option \<times> js_string"

datatype atom =
    WordBoundary
  | Lit char
  | Exactly nat "nat \<Rightarrow> bool"
  | AtLeast nat "nat \<Rightarrow> bool"

definition inRange :: "char \<Rightarrow> char \<Rightarrow> nat \<Rightarrow> bool" where
  "inRange lo hi c = (of_char lo \<le> c \<and> c \<le> of_char hi)"

text \<open>\<open>\d\<close> is \<open>[0-9]\<close> and \<open>\w\<close> is \<open>[A-Za-z0-9_]\<close> (no \<open>u\<close> or \<open>i\<close> flag).\<close>

definition isDigit :: "nat \<Rightarrow> bool" where
  "isDigit c = inRange CHR ''0'' CHR ''9'' c"

definition isWordChar :: "nat \<Rightarrow> bool" where
  "isWordChar c =
     (inRange CHR ''A'' CHR ''Z'' c \<or> inRange CHR ''a'' CHR ''z'' c \<or> isDigit c
      \<or> c = of_char CHR ''_'')"

text \<open>\<open>[A-Za-z0-9._%+-]\<close>, \<open>[A-Za-z0-9.-]\<close> and \<open>[A-Z|a-z]\<close> of the e-mail pattern.\<close>

definition isLocalChar :: "nat \<Rightarrow> bool" where
  "isLocalChar c =
     (inRange CHR ''A'' CHR ''Z'' c \<or> inRange CHR ''a'' CHR ''z'' c \<or> isDigit c
      \<or> c \<in> set (units ''._%+-''))"

definition isDomainChar :: "nat \<Rightarrow> bool" where
  "isDomainChar c =
     (inRange CHR ''A'' CHR ''Z'' c \<or> inRange CHR ''a'' CHR ''z'' c \<or> isDigit c
      \<or> c \<in> set (units ''.-''))"

definition isTldChar :: "nat \<Rightarrow> bool" where
  "isTldChar c =
     (inRange CHR ''A'' CHR ''Z'' c \<or> c = of_char CHR ''|'' \<or> inRange CHR ''a'' CHR ''z'' c)"

fun wordBefore :: "nat option \<Rightarrow> bool" where
  "wordBefore None = False"
| "wordBefore (Some c) = isWordChar c"

fun wordAfter :: "js_string \<Rightarrow> bool" where
  "wordAfter [] = False"
| "wordAfter (c # cs) = isWordChar c"

fun exactly :: "(nat \<Rightarrow> bool) \<Rightarrow> nat \<Rightarrow> cursor \<Rightarrow> cursor list" where
  "exactly p 0 cur = [cur]"
| "exactly p (Suc n) (pv, []) = []"
| "exactly p (Suc n) (pv, c # cs) = (if p c then exactly p n (Some c, cs) else [])"

fun atLeast_rep :: "(nat \<Rightarrow> bool) \<Rightarrow> nat \<Rightarrow> cursor \<Rightarrow> cursor list" where
  "atLeast_rep p n (pv, []) = (if n = 0 then [(pv, [])] else [])"
| "atLeast_rep p n (pv, c # cs) =
     (if p c then atLeast_rep p (n - 1) (Some c, cs) else [])
     @ (if n = 0 then [(pv, c # cs)] else [])"

fun atom_step :: "atom \<Rightarrow> cursor \<Rightarrow> cursor list" where
  "atom_step WordBoundary (pv, rest) =
     (if wordBefore pv \<noteq> wordAfter rest then [(pv, rest)] else [])"
| "atom_step (Lit ch) (pv, []) = []"
| "atom_step (Lit ch) (pv, c # cs) = (if c = of_char ch then [(Some c, cs)] else [])"
| "atom_step (Exactly n p) cur = exactly p n cur"
| "atom_step (AtLeast n p) cur = atLeast_rep p n cur"

text \<open>All cursors at which the sequence of atoms can stop when started at a cursor.\<close>

definition rx_run :: "atom list \<Rightarrow> cursor \<Rightarrow> cursor list" where
  "rx_run atoms cur = fold (\<lambda>a curs. concat (map (atom_step a) curs)) atoms [cur]"

text \<open>
  \<open>text.match(re)\<close> without the \<open>g\<close> flag is used as a condition: it is truthy exactly
  when the pattern matches at some start position.
\<close>

fun rx_search :: "atom list \<Rightarrow> nat option \<Rightarrow> js_string \<Rightarrow> bool" where
  "rx_search atoms pv [] = (rx_run atoms (pv, []) \<noteq> [])"
| "rx_search atoms pv (c # cs) =
     (rx_run atoms (pv, c # cs) \<noteq> [] \<or> rx_search atoms (Some c) cs)"

definition rx_match :: "atom list \<Rightarrow> js_string \<Rightarrow> bool" where
  "rx_match atoms s = rx_search atoms None s"

text \<open>\<open>/\b\d{3}-\d{2}-\d{4}\b/\<close>\<close>

definition ssnPattern :: "atom list" where
  "ssnPattern =
     [WordBoundary, Exactly 3 isDigit, Lit CHR ''-'', Exactly 2 isDigit, Lit CHR ''-'',
      Exactly 4 isDigit, WordBoundary]"

text \<open>\<open>/\b\d{16}\b/\<close>\<close>

definition creditCardPattern :: "atom list" where
  "creditCardPattern = [WordBoundary, Exactly 16 isDigit, WordBoundary]"

text \<open>\<open>/\b[A-Za-z0-9._%+-]+@[A-Za-z0-9.-]+\.[A-Z|a-z]{2,}\b/\<close>\<close>

definition emailPattern :: "atom list" where
  "emailPattern =
     [WordBoundary, AtLeast 1 isLocalChar, Lit CHR ''@'', AtLeast 1 isDomainChar,
      Lit CHR ''.'', AtLeast 2 isTldChar, WordBoundary]"


section \<open>server.js: the local rule engine \<open>EthosLensGovernance\<close>\<close>

definition hackingPatterns :: "string list" where
  "hackingPatterns =
     [''hack into'', ''hack someone'', ''break into'', ''unauthorized access'',
      ''crack password'', ''bypass security'', ''exploit vulnerability'',
      ''ddos attack'', ''sql injection'', ''phishing'', ''malware'',
      ''how to hack'', ''hacking tutorial'', ''illegal access'',
      ''steal data'', ''breach security'', ''network intrusion'']"

definition dataTheftPatterns :: "string list" where
  "dataTheftPatterns =
     [''share the internal'', ''internal database'', ''salary database'',
      ''confidential data'', ''proprietary information'', ''company secrets'',
      ''employee records'', ''customer database'', ''financial records'',
      ''trade secrets'', ''classified information'', ''private documents'',
      ''leak the data'', ''access internal'', ''company database'',
      ''sensitive information'', ''restricted data'', ''internal files'']"

definition harmfulPatterns :: "string list" where
  "harmfulPatterns =
     [''how to make bomb'', ''create explosive'', ''make poison'',
      ''suicide methods'', ''self harm'', ''hurt someone'',
      ''kill someone'', ''murder'', ''violence against'',
      ''how to kill'', ''kill my'', ''kill him'', ''kill her'',
      ''murder my'', ''murder him'', ''murder her'',
      ''harm my'', ''hurt my'', ''attack my'',
      ''assassinate'', ''eliminate someone'']"

definition illegalActivityViolation :: violation where
  "illegalActivityViolation =
     \<lparr> vtype = ''illegal_activity'',
       description = ''Illegal hacking or cybersecurity violation detected'',
       reason = ''Content requests assistance with unauthorized access, hacking, or other illegal activities'',
       severity = 9.5, confidence = 0.95,
       regulatoryFramework = ''Computer Fraud and Abuse Act'' \<rparr>"

definition dataTheftViolation :: violation where
  "dataTheftViolation =
     \<lparr> vtype = ''data_theft'',
       description = ''Unauthorized access to confidential information detected'',
       reason = ''Content requests access to proprietary, confidential, or sensitive company data'',
       severity = 9.0, confidence = 0.9,
       regulatoryFramework = ''Data Protection Act'' \<rparr>"

definition piiViolation :: violation where
  "piiViolation =
     \<lparr> vtype = ''pii'',
       description = ''Personal Identifiable Information detected'',
       reason = ''Content contains sensitive personal data'',
       severity = 8.5, confidence = 0.9,
       regulatoryFramework = ''GDPR'' \<rparr>"

definition harmfulContentViolation :: violation where
  "harmfulContentViolation =
     \<lparr> vtype = ''harmful_content'',
       description = ''Harmful or dangerous content detected'',
       reason = ''Content may promote violence, self-harm, or dangerous activities'',
       severity = 9.0, confidence = 0.9,
       regulatoryFramework = ''Content Safety Guidelines'' \<rparr>"

definition biasViolation :: violation where
  "biasViolation =
     \<lparr> vtype = ''bias'',
       description = ''Potential bias detected'',
       reason = ''Content may contain discriminatory language'',
       severity = 6.5, confidence = 0.7,
       regulatoryFramework = ''IEEE Ethics'' \<rparr>"

definition misinformationViolation :: violation where
  "misinformationViolation =
     \<lparr> vtype = ''misinformation'',
       description = ''Potential misinformation detected'',
       reason = ''Content may spread false information'',
       severity = 7.0, confidence = 0.8,
       regulatoryFramework = ''DSA'' \<rparr>"

text \<open>
  The text that \<open>detectViolations\<close> scans: the template literal
  \<open>`${prompt} ${response}`\<close> (one space between the two), lower-cased.
\<close>

definition scannedText :: "case_db \<Rightarrow> js_string \<Rightarrow> js_string \<Rightarrow> js_string" where
  "scannedText db prompt response = toLowerCase db (prompt @ units '' '' @ response)"

text \<open>The conditions of the six \<open>if\<close> statements of \<open>detectViolations\<close>, on the scanned text.\<close>

definition hackingTrigger :: "js_string \<Rightarrow> bool" where
  "hackingTrigger text = truthy (find (\<lambda>pattern. includes_str text (units pattern)) hackingPatterns)"

definition dataTheftTrigger :: "js_string \<Rightarrow> bool" where
  "dataTheftTrigger text = truthy (find (\<lambda>pattern. includes_str text (units pattern)) dataTheftPatterns)"

definition piiTrigger :: "js_string \<Rightarrow> bool" where
  "piiTrigger text =
     (rx_match ssnPattern text \<or> rx_match creditCardPattern text \<or> rx_match emailPattern text)"

definition harmfulTrigger :: "js_string \<Rightarrow> bool" where
  "harmfulTrigger text = truthy (find (\<lambda>pattern. includes_str text (units pattern)) harmfulPatterns)"

definition biasTrigger :: "js_string \<Rightarrow> bool" where
  "biasTrigger text =
     (includes_str text (units ''all women'') \<or> includes_str text (units ''all men'')
      \<or> includes_str text (units ''people of color are'') \<or> includes_str text (units ''white people are''))"

definition misinformationTrigger :: "js_string \<Rightarrow> bool" where
  "misinformationTrigger text =
     (includes_str text (units ''vaccines cause autism'') \<or> includes_str text (units ''covid is fake'')
      \<or> includes_str text (units ''climate change is a hoax''))"

text \<open>
  \<open>detectViolations\<close>: the list starts empty and each scanner pushes its violation, in
  the order of the source (hacking, data theft, PII, harmful content, bias,
  misinformation). The console output is not modelled.
\<close>

definition pushIf :: "bool \<Rightarrow> 'a \<Rightarrow> 'a list \<Rightarrow> 'a list" where
  "pushIf b v vs = (if b then vs @ [v] else vs)"

definition detectViolations :: "case_db \<Rightarrow> js_string \<Rightarrow> js_string \<Rightarrow> violation list" where
  "detectViolations db prompt response =
     (let text = scannedText db prompt response;
          violations = [];
          violations = pushIf (hackingTrigger text) illegalActivityViolation violations;
          violations = pushIf (dataTheftTrigger text) dataTheftViolation violations;
          violations = pushIf (piiTrigger text) piiViolation violations;
          violations = pushIf (harmfulTrigger text) harmfulContentViolation violations;
          violations = pushIf (biasTrigger text) biasViolation violations;
          violations = pushIf (misinformationTrigger text) misinformationViolation violations
      in violations)"

text \<open>
  \<open>Math.max(...xs)\<close>: the largest element, and \<open>-Infinity\<close> for no argument.
\<close>

datatype js_number = NegInfinity | Finite real

fun js_max :: "js_number \<Rightarrow> real \<Rightarrow> js_number" where
  "js_max NegInfinity x = Finite x"
| "js_max (Finite m) x = Finite (max m x)"

definition Math_max :: "real list \<Rightarrow> js_number" where
  "Math_max xs = fold (\<lambda>x m. js_max m x) xs NegInfinity"

fun js_ge :: "js_number \<Rightarrow> real \<Rightarrow> bool" where
  "js_ge NegInfinity t = False"
| "js_ge (Finite m) t = (t \<le> m)"

fun statusString :: "status \<Rightarrow> string" where
  "statusString Approved = ''approved''"
| "statusString Pending = ''pending''"
| "statusString Blocked = ''blocked''"
| "statusString Flagged = ''flagged''"
| "statusString Compliant = ''compliant''"
| "statusString ErrorStatus = ''error''"

text \<open>
  The status block of \<open>EthosLensGovernance.processInteraction\<close> (lines 113 to 126):
  it leaves the defaults \<open>'approved'\<close>, \<open>'low'\<close> when there is no violation.
\<close>

definition resolveStatus_server ::
  "(violation, 'a) interaction \<Rightarrow> (violation, 'a) interaction" where
  "resolveStatus_server interaction =
     (if length (violations interaction) > 0 then
        (let maxSeverity = Math_max (map severity (violations interaction))
         in if js_ge maxSeverity 8 then
              interaction\<lparr> status := Blocked, severityBucket := Critical \<rparr>
            else if js_ge maxSeverity 6 then
              interaction\<lparr> status := Pending, severityBucket := High \<rparr>
            else
              interaction\<lparr> status := Approved, severityBucket := Medium \<rparr>)
      else interaction)"

text \<open>
  \<open>EthosLensGovernance.processInteraction\<close>. The generated id and the clock are
  arguments; every \<open>new Date()\<close> of one call reads the same value. The argument \<open>db\<close> is
  the case mapping that \<open>toLowerCase\<close> consults.
\<close>

definition processInteraction_server ::
  "case_db \<Rightarrow> string \<Rightarrow> nat \<Rightarrow> js_string \<Rightarrow> js_string
   \<Rightarrow> (violation, server_action) interaction" where
  "processInteraction_server db newId now prompt response =
     (let interaction =
            \<lparr> ident = newId, input_text = prompt, output_text = response, timestamp = now,
              status = Approved, severityBucket = Low,
              violations = [], agentActions = [] \<rparr>;
          vs = detectViolations db prompt response;
          interaction = interaction\<lparr> violations := vs \<rparr>;
          interaction = resolveStatus_server interaction
      in interaction\<lparr> agentActions :=
           [\<lparr> agent_s = ''PolicyEnforcerAgent'', action_s = ''analyze'', timestamp_s = now,
              result_s = ''Found '' @ numberToString (length vs) @ '' violations'' \<rparr>,
            \<lparr> agent_s = ''VerifierAgent'', action_s = ''verify'', timestamp_s = now,
              result_s = ''Status: '' @ statusString (status interaction) \<rparr>] \<rparr>)"


section \<open>inkeepAgentsService: the remote backend\<close>

text \<open>
  What \<open>fetch\<close> can do: reject (network error, aborted request), or resolve with a
  response that has a status code and a body. The body matters only through
  \<open>response.json()\<close>, which rejects when the body is not JSON (\<open>None\<close>) and otherwise
  yields \<open>null\<close> or a value whose \<open>content\<close> and \<open>message\<close> fields may be present.
\<close>

datatype json_value = JsonNull | JsonObject "string option" "string option"

datatype fetch_outcome = Rejected js_error | Response nat "json_value option"

record http_response =
  statusCode :: nat
  body :: "json_value option"

definition fetch_result :: "fetch_outcome \<Rightarrow> js_error + http_response" where
  "fetch_result out =
     (case out of Rejected e \<Rightarrow> Inl e
      | Response st b \<Rightarrow> Inr \<lparr> statusCode = st, body = b \<rparr>)"

definition json :: "http_response \<Rightarrow> js_error + json_value" where
  "json response =
     (case body response of
        None \<Rightarrow> Inl (JsError ''Unexpected token in JSON'')
      | Some v \<Rightarrow> Inr v)"

text \<open>\<open>response.ok\<close>: the status is in the range 200 to 299.\<close>

definition ok :: "http_response \<Rightarrow> bool" where
  "ok response = (200 \<le> statusCode response \<and> statusCode response \<le> 299)"

text \<open>\<open>try { block } catch (error) { handler }\<close>\<close>

definition try_catch :: "js_error + 'a \<Rightarrow> (js_error \<Rightarrow> js_error + 'a) \<Rightarrow> js_error + 'a" where
  "try_catch block handler = (case block of Inl e \<Rightarrow> handler e | Inr x \<Rightarrow> Inr x)"

text \<open>
  \<open>InkeepAgentsService.isAvailable\<close> of the TypeScript service. The network is a
  function from the requested URL to the outcome of the request; the second component
  of the result lists the URLs that were requested.
\<close>

definition isAvailable_ts ::
  "bool \<Rightarrow> string \<Rightarrow> (string \<Rightarrow> fetch_outcome) \<Rightarrow> (js_error + bool) \<times> string list" where
  "isAvailable_ts isEnabled baseUrl net =
     (if \<not> isEnabled then (Inr False, [])
      else
        (try_catch
           (case fetch_result (net (baseUrl @ ''/health'')) of
              Inl e \<Rightarrow> Inl e
            | Inr response \<Rightarrow> Inr (ok response))
           (\<lambda>error. Inr False),
         [baseUrl @ ''/health'']))"

text \<open>
  \<open>isAvailable\<close> of the JavaScript service: three candidate URLs in turn; a response
  that is \<open>ok\<close> or has status 404 answers \<open>true\<close>, anything else moves on to the next
  candidate.
\<close>

fun probeCandidates ::
  "(string \<Rightarrow> fetch_outcome) \<Rightarrow> string list \<Rightarrow> (js_error + bool) \<times> string list" where
  "probeCandidates net [] = (Inr False, [])"
| "probeCandidates net (url # rest) =
     (case try_catch
             (case fetch_result (net url) of
                Inl e \<Rightarrow> Inl e
              | Inr res \<Rightarrow> Inr (ok res \<or> statusCode res = 404))
             (\<lambda>_. Inr False)
      of Inl e \<Rightarrow> (Inl e, [url])
       | Inr True \<Rightarrow> (Inr True, [url])
       | Inr False \<Rightarrow>
           (case probeCandidates net rest of (r, urls) \<Rightarrow> (r, url # urls)))"

definition isAvailable_js ::
  "bool \<Rightarrow> string \<Rightarrow> (string \<Rightarrow> fetch_outcome) \<Rightarrow> (js_error + bool) \<times> string list" where
  "isAvailable_js isEnabled baseUrl net =
     (if \<not> isEnabled then (Inr False, [])
      else probeCandidates net
             [baseUrl @ ''/health'', baseUrl @ ''/openapi.json'', baseUrl @ ''/''])"

text \<open>The feedback payload: \<open>{rating: 'positive' | 'negative' | 'report', comment?}\<close>.\<close>

datatype rating = Positive | Negative | Report

record feedback =
  rating :: rating
  comment :: "string option"

fun ratingString :: "rating \<Rightarrow> string" where
  "ratingString Positive = ''positive''"
| "ratingString Negative = ''negative''"
| "ratingString Report = ''report''"

record feedback_result =
  feedbackProcessed :: bool
  auditLogCreated :: bool
  improvementRecommendations :: "string list"

text \<open>The JSON body of a POST to \<open>/conversations\<close>, before \<open>JSON.stringify\<close>.\<close>

record conversation_request =
  graphId :: string
  message :: string

definition newline :: string where
  "newline = [char_of (10 :: nat)]"

text \<open>\<open>response.content || response.message || ''\<close>; reading a field of \<open>null\<close> throws.\<close>

definition contentOf :: "json_value \<Rightarrow> js_error + string" where
  "contentOf response =
     (case response of
        JsonNull \<Rightarrow> Inl (JsError ''Cannot read properties of null'')
      | JsonObject c m \<Rightarrow>
          Inr (if truthy c then the c else if truthy m then the m else []))"

definition parseFeedbackResponse :: "json_value \<Rightarrow> js_error + feedback_result" where
  "parseFeedbackResponse response =
     (case contentOf response of
        Inl e \<Rightarrow> Inl e
      | Inr content \<Rightarrow>
          Inr \<lparr> feedbackProcessed = True, auditLogCreated = True,
                improvementRecommendations =
                  [''Continue monitoring user feedback patterns'',
                   ''Implement suggested governance improvements'',
                   ''Review policy effectiveness based on feedback''] \<rparr>)"

text \<open>
  \<open>InkeepAgentsService.processFeedback\<close> (TypeScript). The network maps the URL and
  the request body to the outcome; the \<open>catch\<close> block logs and rethrows.
\<close>

definition inkeep_processFeedback ::
  "string \<Rightarrow> (string \<Rightarrow> conversation_request \<Rightarrow> fetch_outcome) \<Rightarrow> string \<Rightarrow> feedback
   \<Rightarrow> js_error + feedback_result" where
  "inkeep_processFeedback baseUrl post interactionId fb =
     try_catch
       (case fetch_result
               (post (baseUrl @ ''/conversations'')
                  \<lparr> graphId = ''compliance-audit-graph'',
                    message =
                      ''Please process user feedback for interaction '' @ interactionId @ '':''
                      @ newline @ newline
                      @ ''Feedback Type: '' @ ratingString (rating fb) @ newline
                      @ (if truthy (comment fb)
                         then ''Comment: '' @ [CHR 0x22] @ the (comment fb) @ [CHR 0x22] else [])
                      @ newline @ newline
                      @ ''Please:'' @ newline
                      @ ''1. Analyze the feedback for governance insights'' @ newline
                      @ ''2. Create appropriate audit log entries'' @ newline
                      @ ''3. Identify any system improvement opportunities'' @ newline
                      @ ''4. Generate compliance reports if needed'' \<rparr>)
        of Inl e \<Rightarrow> Inl e
         | Inr response \<Rightarrow>
             if \<not> ok response then
               Inl (JsError (''Inkeep agents API error: '' @ numberToString (statusCode response)))
             else
               (case json response of
                  Inl e \<Rightarrow> Inl e
                | Inr parsed \<Rightarrow> parseFeedbackResponse parsed))
       (\<lambda>error. Inl error)"

text \<open>
  What a governance analysis call returns when it does not throw:
  \<open>{violations, agentActions, status, severity}\<close>.
\<close>

record remote_result =
  r_violations :: "violation list"
  r_agentActions :: "agent_action list"
  r_status :: status
  r_severity :: severity_level


section \<open>governanceService.ts: the unified governance service\<close>

record gov_config =
  useInkeepAgents :: bool
  inkeepAvailable :: bool

definition shouldUseInkeep :: "gov_config \<Rightarrow> bool" where
  "shouldUseInkeep cfg = (useInkeepAgents cfg \<and> inkeepAvailable cfg)"

type_synonym gov_interaction = "(violation, agent_action) interaction"

text \<open>
  The module \<open>../agents\<close> is not among the modelled sources, so the agents are
  parameters. A legacy agent receives
  the interaction, may change it (the policy enforcer is what adds violations on this
  path), and returns its actions or throws.
\<close>

type_synonym legacy_agent =
  "gov_interaction \<Rightarrow> gov_interaction \<times> (js_error + agent_action list)"

record legacy_agents =
  policyEnforcer :: legacy_agent
  verifier :: legacy_agent
  responseAgent :: legacy_agent
  auditLogger :: legacy_agent
  feedbackAgent :: legacy_agent

text \<open>\<open>determineFinalStatus\<close>\<close>

definition determineFinalStatus :: "(violation, 'a) interaction \<Rightarrow> (violation, 'a) interaction" where
  "determineFinalStatus interaction =
     (if length (violations interaction) = 0 then
        interaction\<lparr> status := Approved, severityBucket := Low \<rparr>
      else
        (let maxSeverity = Math_max (map severity (violations interaction));
             criticalViolations = filter (\<lambda>v. severity v \<ge> 9) (violations interaction);
             highViolations = filter (\<lambda>v. severity v \<ge> 7) (violations interaction)
         in if length criticalViolations > 0 then
              interaction\<lparr> status := Blocked, severityBucket := Critical \<rparr>
            else if length highViolations > 0 then
              interaction\<lparr> status := Pending, severityBucket := High \<rparr>
            else if js_ge maxSeverity 5 then
              interaction\<lparr> status := Pending, severityBucket := Medium \<rparr>
            else
              interaction\<lparr> status := Approved, severityBucket := Low \<rparr>))"

text \<open>
  \<open>processWithInkeepAgents\<close>: the argument \<open>remote\<close> is the outcome of
  \<open>inkeepAgentsService.processAdvancedGovernance(input, output, context)\<close>. The result
  is the interaction as the call leaves it, and whether the call threw.
\<close>

definition processWithInkeepAgents ::
  "js_error + remote_result \<Rightarrow> nat \<Rightarrow> gov_interaction \<Rightarrow> gov_interaction \<times> (js_error + unit)" where
  "processWithInkeepAgents remote now interaction =
     (case remote of
        Inl error \<Rightarrow> (interaction, Inl error)
      | Inr res \<Rightarrow>
          (interaction
             \<lparr> violations := violations interaction @ r_violations res,
               agentActions := agentActions interaction @ r_agentActions res
                 @ [\<lparr> agentName = ''InkeepIntegration'', action = ''log'',
                      details = ''Processed through Inkeep Advanced Governance with ''
                        @ numberToString (length (r_violations res)) @ '' violations detected'',
                      stamp = now \<rparr>] \<rparr>,
           Inr ()))"

fun runAgents :: "legacy_agent list \<Rightarrow> gov_interaction \<Rightarrow> gov_interaction \<times> (js_error + unit)" where
  "runAgents [] interaction = (interaction, Inr ())"
| "runAgents (a # rest) interaction =
     (case a interaction of
        (interaction', Inl error) \<Rightarrow> (interaction', Inl error)
      | (interaction', Inr actions) \<Rightarrow>
          runAgents rest (interaction'\<lparr> agentActions := agentActions interaction' @ actions \<rparr>))"

text \<open>\<open>processWithLegacyAgents\<close>: the five agents in turn; an error is rethrown.\<close>

definition processWithLegacyAgents ::
  "legacy_agents \<Rightarrow> gov_interaction \<Rightarrow> gov_interaction \<times> (js_error + unit)" where
  "processWithLegacyAgents agents interaction =
     runAgents
       [policyEnforcer agents, verifier agents, responseAgent agents, auditLogger agents,
        feedbackAgent agents]
       interaction"

text \<open>
  \<open>GovernanceService.processInteraction\<close>. The fallback call in the \<open>catch\<close> block is
  not guarded: an error of the legacy agents there rejects the promise.
\<close>

definition processInteraction_ts ::
  "gov_config \<Rightarrow> legacy_agents \<Rightarrow> js_error + remote_result \<Rightarrow> string \<Rightarrow> nat \<Rightarrow> js_string
   \<Rightarrow> js_string \<Rightarrow> js_error + gov_interaction" where
  "processInteraction_ts cfg agents remote interactionId now inp outp =
     (let interaction = pendingInteraction interactionId now inp outp
      in case (if shouldUseInkeep cfg then processWithInkeepAgents remote now interaction
               else processWithLegacyAgents agents interaction) of
           (interaction', Inr _) \<Rightarrow> Inr (determineFinalStatus interaction')
         | (interaction', Inl error) \<Rightarrow>
             if shouldUseInkeep cfg then
               (case processWithLegacyAgents agents interaction' of
                  (interaction'', Inl error') \<Rightarrow> Inl error'
                | (interaction'', Inr _) \<Rightarrow> Inr (determineFinalStatus interaction''))
             else Inr (determineFinalStatus interaction'))"

text \<open>\<open>GovernanceService.processFeedback\<close>: every error is caught and logged.\<close>

definition processFeedback_ts ::
  "gov_config \<Rightarrow> string \<Rightarrow> (string \<Rightarrow> conversation_request \<Rightarrow> fetch_outcome) \<Rightarrow> string \<Rightarrow> feedback
   \<Rightarrow> js_error + unit" where
  "processFeedback_ts cfg baseUrl post interactionId fb =
     try_catch
       (if shouldUseInkeep cfg then
          (case inkeep_processFeedback baseUrl post interactionId fb of
             Inl e \<Rightarrow> Inl e
           | Inr _ \<Rightarrow> Inr ())
        else Inr ())
       (\<lambda>error. Inr ())"


section \<open>governanceService.js: the service of the Node server\<close>

definition errorMessage :: "js_error \<Rightarrow> string" where
  "errorMessage e = (case e of JsError m \<Rightarrow> m)"

text \<open>The status block, lines 51 to 64.\<close>

definition finalizeStatus_js :: "(violation, 'a) interaction \<Rightarrow> (violation, 'a) interaction" where
  "finalizeStatus_js interaction =
     (if length (violations interaction) = 0 then
        interaction\<lparr> status := Approved, severityBucket := Low \<rparr>
      else if list_ex (\<lambda>v. severity v \<ge> 9) (violations interaction) then
        interaction\<lparr> status := Blocked, severityBucket := Critical \<rparr>
      else if list_ex (\<lambda>v. severity v \<ge> 7) (violations interaction) then
        interaction\<lparr> status := Pending, severityBucket := High \<rparr>
      else
        interaction\<lparr> status := Pending, severityBucket := Medium \<rparr>)"

definition processInteraction_js ::
  "gov_config \<Rightarrow> js_error + remote_result \<Rightarrow> string \<Rightarrow> nat \<Rightarrow> js_string \<Rightarrow> js_string
   \<Rightarrow> js_error + gov_interaction" where
  "processInteraction_js cfg remote interactionId now inp outp =
     (let interaction = pendingInteraction interactionId now inp outp;
          useInkeep = (useInkeepAgents cfg \<and> inkeepAvailable cfg)
      in case try_catch
                (if useInkeep then
                   (case remote of
                      Inl e \<Rightarrow> Inl e
                    | Inr res \<Rightarrow>
                        Inr (interaction
                               \<lparr> violations := violations interaction @ r_violations res,
                                 agentActions := agentActions interaction @ r_agentActions res \<rparr>))
                 else
                   Inr (interaction
                          \<lparr> agentActions := agentActions interaction
                              @ [\<lparr> agentName = ''Legacy'', action = ''log'',
                                   details = ''Legacy fallback used'', stamp = now \<rparr>] \<rparr>))
                (\<lambda>e. Inr (interaction
                             \<lparr> agentActions := agentActions interaction
                                 @ [\<lparr> agentName = ''GovernanceService'', action = ''log'',
                                      details = ''Processing error: '' @ errorMessage e,
                                      stamp = now \<rparr>] \<rparr>))
         of Inl e \<Rightarrow> Inl e
          | Inr interaction' \<Rightarrow> Inr (finalizeStatus_js interaction'))"


section \<open>governanceServiceSupabase.ts: the service with persistence\<close>

text \<open>
  In this variant an agent returns one action \<open>{type, severity, reason, policyId}\<close>
  whose severity is a string, and a violation
  \<open>{id, policyId, description, timestamp, severity, resolved}\<close> copies it.
\<close>

record sb_action =
  a_type :: string
  a_severity :: string
  a_reason :: string
  a_policyId :: "string option"

record sb_violation =
  sv_id :: string
  policyId :: string
  sv_description :: string
  sv_timestamp :: nat
  sv_severity :: string
  resolved :: bool

type_synonym sb_interaction = "(sb_violation, sb_action) interaction"

text \<open>
  An element of the array \<open>agents\<close> (a parameter, as above): its
  name, its type and its \<open>process\<close> method, which returns an action or throws.
\<close>

record sb_agent =
  agent_name :: string
  agent_type :: string
  process :: "sb_interaction \<Rightarrow> js_error + sb_action"









section \<open>The dashboard's feedback handler\<close>

text \<open>
  \<open>handleInteractionAction\<close> of the live monitor keeps the list of interactions that
  the user sees; it is the place where feedback is attached to an interaction.
\<close>

record user_feedback =
  fb_rating :: rating
  fb_timestamp :: nat

record ('v, 'a) ui_interaction = "('v, 'a) interaction" +
  userFeedback :: "user_feedback option"

datatype ui_rating = UiPositive | UiNegative | UiFlag

fun toRating :: "ui_rating \<Rightarrow> rating" where
  "toRating UiFlag = Report"
| "toRating UiPositive = Positive"
| "toRating UiNegative = Negative"

definition handleInteractionAction ::
  "nat \<Rightarrow> ('v, 'a) ui_interaction list \<Rightarrow> string \<Rightarrow> string \<Rightarrow> ui_rating option
   \<Rightarrow> ('v, 'a) ui_interaction list" where
  "handleInteractionAction now prev i act rt =
     (if act = ''feedback'' \<and> rt \<noteq> None then
        map (\<lambda>interaction.
               if ident interaction = i
               then interaction
                      \<lparr> userFeedback :=
                          Some \<lparr> fb_rating = toRating (the rt), fb_timestamp = now \<rparr> \<rparr>
               else interaction)
            prev
      else if act = ''approve'' \<or> act = ''block'' then
        (let newStatus = (if act = ''approve'' then Approved else Blocked)
         in map (\<lambda>interaction.
                   if ident interaction = i then interaction\<lparr> status := newStatus \<rparr>
                   else interaction)
                prev)
      else prev)"


section \<open>Notions used to state the properties\<close>

text \<open>The pair that a status resolver decides.\<close>

definition outcome :: "('v, 'a) interaction \<Rightarrow> status \<times> severity_level" where
  "outcome interaction = (status interaction, severityBucket interaction)"

text \<open>The largest severity of a list of violations (meaningful for a non-empty list).\<close>

definition maxSeverityOf :: "violation list \<Rightarrow> real" where
  "maxSeverityOf vs = Max (set (map severity vs))"

text \<open>
  The threshold table as the specification words it (section 4.2), for comparison with
  the three status blocks of the sources: empty list \<open>(approved, low)\<close>; otherwise
  \<open>maxSeverity >= 8\<close> gives \<open>(blocked, critical)\<close>, \<open>6 <= maxSeverity < 8\<close> gives
  \<open>(pending, high)\<close>, \<open>5 <= maxSeverity < 6\<close> gives \<open>(pending, medium)\<close>, anything else
  \<open>(approved, low)\<close>.
\<close>

definition specifiedResolver :: "violation list \<Rightarrow> status \<times> severity_level" where
  "specifiedResolver vs =
     (if vs = [] then (Approved, Low)
      else if 8 \<le> maxSeverityOf vs then (Blocked, Critical)
      else if 6 \<le> maxSeverityOf vs \<and> maxSeverityOf vs < 8 then (Pending, High)
      else if 5 \<le> maxSeverityOf vs \<and> maxSeverityOf vs < 6 then (Pending, Medium)
      else (Approved, Low))"

text \<open>
  Legacy agents that leave the interaction alone and report no action: a stand-in for
  the absent module \<open>../agents\<close> in examples.
\<close>

definition silentAgent :: legacy_agent where
  "silentAgent interaction = (interaction, Inr [])"

definition silentAgents :: legacy_agents where
  "silentAgents =
     \<lparr> policyEnforcer = silentAgent, verifier = silentAgent, responseAgent = silentAgent,
       auditLogger = silentAgent, feedbackAgent = silentAgent \<rparr>"

text \<open>
  What a probe request tells: \<open>answers\<close> when the response has a success status,
  \<open>answersOr404\<close> when it has a success status or the status 404. A rejected request
  tells neither.
\<close>

definition answers :: "fetch_outcome \<Rightarrow> bool" where
  "answers out = (case out of Rejected e \<Rightarrow> False | Response st b \<Rightarrow> 200 \<le> st \<and> st \<le> 299)"

definition answersOr404 :: "fetch_outcome \<Rightarrow> bool" where
  "answersOr404 out =
     (case out of Rejected e \<Rightarrow> False | Response st b \<Rightarrow> (200 \<le> st \<and> st \<le> 299) \<or> st = 404)"


text \<open>
  A case mapping that writes every unit left to it unchanged. The examples use it; their
  texts hold only units whose mapping \<open>lowerUnit\<close> spells out.
\<close>

definition sameUnit :: case_db where
  "sameUnit text i = take 1 (drop i text)"

text \<open>Every phrase that one of the five phrase scanners of \<open>detectViolations\<close> looks for.\<close>

definition triggerPhrases :: "string list" where
  "triggerPhrases =
     hackingPatterns @ dataTheftPatterns @ harmfulPatterns
     @ [''all women'', ''all men'', ''people of color are'', ''white people are'']
     @ [''vaccines cause autism'', ''covid is fake'', ''climate change is a hoax'']"

text \<open>Two interactions get the same decision from each of the three status blocks.\<close>

definition sameDecision :: "(violation, 'a) interaction \<Rightarrow> (violation, 'a) interaction \<Rightarrow> bool" where
  "sameDecision i j =
     (outcome (determineFinalStatus j) = outcome (determineFinalStatus i)
      \<and> outcome (resolveStatus_server j) = outcome (resolveStatus_server i)
      \<and> outcome (finalizeStatus_js j) = outcome (finalizeStatus_js i))"


section \<open>The status resolvers\<close>

lemma fold_js_max: "fold (\<lambda>x m. js_max m x) xs (Finite a) = Finite (fold max xs a)"
  by (induction xs arbitrary: a) (simp_all add: max.commute)

lemma Math_max_nonempty: "xs \<noteq> [] \<Longrightarrow> Math_max xs = Finite (Max (set xs))"
proof (cases xs)
  case Nil
  assume "xs \<noteq> []"
  with Nil show ?thesis by simp
next
  case (Cons a as)
  have "Math_max (a # as) = Finite (fold max as a)"
    by (simp add: Math_max_def fold_js_max)
  also have "fold max as a = Max (set (a # as))"
    by (rule Max.set_eq_fold [symmetric])
  finally show ?thesis using Cons by simp
qed

lemma js_ge_Math_max:
  "vs \<noteq> [] \<Longrightarrow> js_ge (Math_max (map severity vs)) t = (t \<le> maxSeverityOf vs)"
  by (simp add: Math_max_nonempty maxSeverityOf_def)

lemma some_ge_iff_max:
  "vs \<noteq> [] \<Longrightarrow> (\<exists>v \<in> set vs. t \<le> severity v) = (t \<le> maxSeverityOf vs)"
  by (simp add: maxSeverityOf_def Max_ge_iff)

lemma filter_empty_iff_max:
  "vs \<noteq> [] \<Longrightarrow> (filter (\<lambda>v. t \<le> severity v) vs = []) = (\<not> t \<le> maxSeverityOf vs)"
  by (simp add: filter_empty_conv some_ge_iff_max [symmetric])

lemma list_ex_iff_max:
  "vs \<noteq> [] \<Longrightarrow> list_ex (\<lambda>v. t \<le> severity v) vs = (t \<le> maxSeverityOf vs)"
  by (simp add: list_ex_iff some_ge_iff_max)

lemma maxSeverityOf_single: "maxSeverityOf [v] = severity v"
  by (simp add: maxSeverityOf_def)

lemma maxSeverityOf_Cons:
  "vs \<noteq> [] \<Longrightarrow> maxSeverityOf (v # vs) = max (severity v) (maxSeverityOf vs)"
  by (simp add: maxSeverityOf_def)

lemma maxSeverityOf_ge: "v \<in> set vs \<Longrightarrow> severity v \<le> maxSeverityOf vs"
  by (simp add: maxSeverityOf_def)

lemma determineFinalStatus_table:
  "outcome (determineFinalStatus i) =
     (if violations i = [] then (Approved, Low)
      else if 9 \<le> maxSeverityOf (violations i) then (Blocked, Critical)
      else if 7 \<le> maxSeverityOf (violations i) then (Pending, High)
      else if 5 \<le> maxSeverityOf (violations i) then (Pending, Medium)
      else (Approved, Low))"
  by (simp add: determineFinalStatus_def outcome_def Let_def filter_empty_iff_max js_ge_Math_max)

lemma finalizeStatus_js_table:
  "outcome (finalizeStatus_js i) =
     (if violations i = [] then (Approved, Low)
      else if 9 \<le> maxSeverityOf (violations i) then (Blocked, Critical)
      else if 7 \<le> maxSeverityOf (violations i) then (Pending, High)
      else (Pending, Medium))"
  by (simp add: finalizeStatus_js_def outcome_def list_ex_iff_max)

lemma resolveStatus_server_table:
  "outcome (resolveStatus_server i) =
     (if violations i = [] then outcome i
      else if 8 \<le> maxSeverityOf (violations i) then (Blocked, Critical)
      else if 6 \<le> maxSeverityOf (violations i) then (Pending, High)
      else (Approved, Medium))"
  by (simp add: resolveStatus_server_def outcome_def Let_def js_ge_Math_max)

lemma maxSeverityOf_replace:
  assumes "ws \<noteq> []" and "\<forall>w \<in> set ws. severity w = severity v"
  shows "maxSeverityOf (xs @ ws @ ys) = maxSeverityOf (xs @ [v] @ ys)"
proof -
  have "severity ` set ws = {severity v}"
    using assms by (cases ws) auto
  then have "set (map severity (xs @ ws @ ys)) = set (map severity (xs @ [v] @ ys))"
    by (simp add: image_Un)
  then show ?thesis
    unfolding maxSeverityOf_def by (rule arg_cong)
qed

lemma sameDecision_max:
  assumes "violations i \<noteq> []" and "violations j \<noteq> []"
    and "maxSeverityOf (violations j) = maxSeverityOf (violations i)"
  shows "sameDecision i j"
  unfolding sameDecision_def
  by (simp only: determineFinalStatus_table resolveStatus_server_table
      finalizeStatus_js_table assms if_False simp_thms)

text \<open>
  C1. The claim gives one threshold table (blocked from 8, pending/high from 6,
  pending/medium from 5, otherwise approved/low) for the status resolver. The sources
  have three status blocks and none of them is that table. What holds, with the
  maximum of the severities of a non-empty list:
  \<^item> \<open>determineFinalStatus\<close> (governanceService.ts): blocked/critical from 9,
    pending/high from 7, pending/medium from 5, otherwise approved/low; an empty list
    gives approved/low;
  \<^item> the block of server.js: blocked/critical from 8, pending/high from 6, otherwise
    approved/medium; an empty list leaves the interaction's status and severity as
    they are (approved/low in \<open>processInteraction\<close>);
  \<^item> the block of governanceService.js: blocked/critical from 9, pending/high from 7,
    otherwise pending/medium; an empty list gives approved/low.
\<close>

theorem status_tables_of_the_sources:
  "outcome (determineFinalStatus i) =
     (if violations i = [] then (Approved, Low)
      else if 9 \<le> maxSeverityOf (violations i) then (Blocked, Critical)
      else if 7 \<le> maxSeverityOf (violations i) then (Pending, High)
      else if 5 \<le> maxSeverityOf (violations i) then (Pending, Medium)
      else (Approved, Low))
   \<and> outcome (resolveStatus_server i) =
     (if violations i = [] then outcome i
      else if 8 \<le> maxSeverityOf (violations i) then (Blocked, Critical)
      else if 6 \<le> maxSeverityOf (violations i) then (Pending, High)
      else (Approved, Medium))
   \<and> outcome (finalizeStatus_js i) =
     (if violations i = [] then (Approved, Low)
      else if 9 \<le> maxSeverityOf (violations i) then (Blocked, Critical)
      else if 7 \<le> maxSeverityOf (violations i) then (Pending, High)
      else (Pending, Medium))"
  using determineFinalStatus_table [of i] resolveStatus_server_table [of i]
    finalizeStatus_js_table [of i]
  by (rule conjI [OF _ conjI])

text \<open>
  The three blocks on the list of a bias violation (6.5) and a PII violation (8.5):
  only server.js blocks.
\<close>

theorem status_tables_of_the_sources_witness:
  "outcome (determineFinalStatus
             ((pendingInteraction ''i1'' 0 (units ''p'') (units ''r'') :: gov_interaction)
                \<lparr> violations := [biasViolation, piiViolation] \<rparr>)) = (Pending, High)
   \<and> outcome (resolveStatus_server
             ((pendingInteraction ''i1'' 0 (units ''p'') (units ''r'') :: gov_interaction)
                \<lparr> violations := [biasViolation, piiViolation] \<rparr>)) = (Blocked, Critical)
   \<and> outcome (finalizeStatus_js
             ((pendingInteraction ''i1'' 0 (units ''p'') (units ''r'') :: gov_interaction)
                \<lparr> violations := [biasViolation, piiViolation] \<rparr>)) = (Pending, High)"
  using status_tables_of_the_sources
    [of "(pendingInteraction ''i1'' 0 (units ''p'') (units ''r'') :: gov_interaction)
           \<lparr> violations := [biasViolation, piiViolation] \<rparr>"]
  by (simp add: maxSeverityOf_Cons maxSeverityOf_single biasViolation_def piiViolation_def)

text \<open>
  One violation of severity 8.5: the specified table says blocked/critical,
  \<open>determineFinalStatus\<close> answers pending/high.
\<close>

theorem specified_table_counterexample:
  "outcome (determineFinalStatus
             ((pendingInteraction ''i1'' 0 (units ''my card'') (units ''1234567890123456'') :: gov_interaction)
                \<lparr> violations := [piiViolation] \<rparr>)) = (Pending, High)
   \<and> specifiedResolver [piiViolation] = (Blocked, Critical)"
  by (simp add: determineFinalStatus_table specifiedResolver_def maxSeverityOf_single
      piiViolation_def)

text \<open>
  C8. The decision of each status block depends only on the largest severity in the
  list, not on how many violations there are: two non-empty lists with the same
  maximum get the same status and severity, and so do a list and the list in which one
  violation is replaced by any positive number of violations of the same severity
  (the violation twice, or five violations of that severity).
\<close>

theorem resolver_ignores_count:
  fixes i j :: "(violation, 'a) interaction"
  shows "(violations i \<noteq> [] \<and> violations j \<noteq> []
          \<and> maxSeverityOf (violations j) = maxSeverityOf (violations i)
          \<longrightarrow> sameDecision i j)
       \<and> (violations i = xs @ [v] @ ys \<and> violations j = xs @ ws @ ys \<and> ws \<noteq> []
          \<and> (\<forall>w \<in> set ws. severity w = severity v)
          \<longrightarrow> sameDecision i j)"
proof (intro conjI impI)
  assume "violations i \<noteq> [] \<and> violations j \<noteq> []
          \<and> maxSeverityOf (violations j) = maxSeverityOf (violations i)"
  then show "sameDecision i j"
    by (simp add: sameDecision_max)
next
  assume a: "violations i = xs @ [v] @ ys \<and> violations j = xs @ ws @ ys \<and> ws \<noteq> []
          \<and> (\<forall>w \<in> set ws. severity w = severity v)"
  then have "maxSeverityOf (xs @ ws @ ys) = maxSeverityOf (xs @ [v] @ ys)"
    by (intro maxSeverityOf_replace) simp_all
  with a have "maxSeverityOf (violations j) = maxSeverityOf (violations i)"
    by simp
  moreover from a have "violations i \<noteq> []" and "violations j \<noteq> []"
    by simp_all
  ultimately show "sameDecision i j"
    by (simp add: sameDecision_max)
qed

text \<open>One harmful-content violation (9.0) against five of them, next to a bias violation.\<close>

theorem resolver_ignores_count_witness:
  "sameDecision
     ((pendingInteraction ''i1'' 0 (units ''p'') (units ''r'') :: gov_interaction)
        \<lparr> violations := [biasViolation] @ [harmfulContentViolation] @ [] \<rparr>)
     ((pendingInteraction ''i2'' 0 (units ''p'') (units ''r'') :: gov_interaction)
        \<lparr> violations := [biasViolation] @ replicate 5 harmfulContentViolation @ [] \<rparr>)"
  using resolver_ignores_count
    [of "(pendingInteraction ''i1'' 0 (units ''p'') (units ''r'') :: gov_interaction)
           \<lparr> violations := [biasViolation] @ [harmfulContentViolation] @ [] \<rparr>"
        "(pendingInteraction ''i2'' 0 (units ''p'') (units ''r'') :: gov_interaction)
           \<lparr> violations := [biasViolation] @ replicate 5 harmfulContentViolation @ [] \<rparr>"
        "[biasViolation]" harmfulContentViolation "[]"
        "replicate 5 harmfulContentViolation"]
  by simp



section \<open>Strings and patterns\<close>

lemma units_append: "units (a @ b) = units a @ units b"
  by (simp add: units_def)

lemma lowerFrom_append:
  "lowerFrom db text i (a @ b) = lowerFrom db text i a @ lowerFrom db text (i + length a) b"
  by (induction a arbitrary: i) simp_all

lemma lowerFrom_plain:
  "\<forall>u \<in> set p. u < 128 \<and> \<not> (65 \<le> u \<and> u \<le> 90) \<Longrightarrow> lowerFrom db text i p = p"
  by (induction p arbitrary: i) (simp_all add: lowerUnit_def)

lemma toLowerCase_around:
  assumes "\<forall>u \<in> set p. u < 128 \<and> \<not> (65 \<le> u \<and> u \<le> 90)"
  shows "toLowerCase db (a @ p @ b) =
           lowerFrom db (a @ p @ b) 0 a @ p
           @ lowerFrom db (a @ p @ b) (length a + length p) b"
  using assms by (simp add: toLowerCase_def lowerFrom_append lowerFrom_plain)

lemma isDigit_plain: "isDigit d \<Longrightarrow> d < 128 \<and> \<not> (65 \<le> d \<and> d \<le> 90)"
  by (simp add: isDigit_def inRange_def)

lemma isWordChar_upper: "65 \<le> u \<Longrightarrow> u \<le> 90 \<Longrightarrow> isWordChar u"
  by (simp add: isWordChar_def inRange_def)

lemma lowerUnit_boundary:
  "u < 128 \<Longrightarrow> \<not> isWordChar u \<Longrightarrow> lowerUnit db text i u = [u]"
  using isWordChar_upper [of u] by (auto simp: lowerUnit_def)

lemma includes_str_iff: "includes_str t p = (\<exists>a b. t = a @ p @ b)"
proof (induction t)
  case Nil
  show ?case by auto
next
  case (Cons c cs)
  have "startsWith (c # cs) p = (\<exists>b. c # cs = p @ b)"
    unfolding startsWith_def
    by (metis append_eq_conv_conj append_take_drop_id)
  moreover have "(\<exists>a b. c # cs = a @ p @ b) = ((\<exists>b. c # cs = p @ b) \<or> (\<exists>a b. cs = a @ p @ b))"
  proof
    assume "\<exists>a b. c # cs = a @ p @ b"
    then obtain a b where ab: "c # cs = a @ p @ b" by blast
    show "(\<exists>b. c # cs = p @ b) \<or> (\<exists>a b. cs = a @ p @ b)"
    proof (cases a)
      case Nil
      with ab show ?thesis by auto
    next
      case (Cons x a')
      with ab have "cs = a' @ p @ b" by simp
      then show ?thesis by blast
    qed
  next
    assume "(\<exists>b. c # cs = p @ b) \<or> (\<exists>a b. cs = a @ p @ b)"
    then show "\<exists>a b. c # cs = a @ p @ b"
    proof
      assume "\<exists>b. c # cs = p @ b"
      then obtain b where "c # cs = [] @ p @ b" by auto
      then show ?thesis by blast
    next
      assume "\<exists>a b. cs = a @ p @ b"
      then obtain a b where "c # cs = (c # a) @ p @ b" by auto
      then show ?thesis by blast
    qed
  qed
  ultimately show ?case using Cons.IH by simp
qed

lemma exactly_all:
  "length ds = n \<Longrightarrow> ds \<noteq> [] \<Longrightarrow> \<forall>d \<in> set ds. p d \<Longrightarrow>
     exactly p n (pv, ds @ post) = [(Some (last ds), post)]"
proof (induction ds arbitrary: n pv)
  case Nil
  then show ?case by simp
next
  case (Cons d ds)
  then obtain m where n: "n = Suc m" and m: "length ds = m" by (cases n) auto
  show ?case
  proof (cases ds)
    case Nil
    with Cons.prems n show ?thesis by simp
  next
    case (Cons e es)
    with Cons.IH [of m "Some d"] Cons.prems n m show ?thesis by simp
  qed
qed

lemma isDigit_isWordChar: "isDigit c \<Longrightarrow> isWordChar c"
  by (simp add: isWordChar_def)

lemma creditCard_run:
  assumes "length ds = 16" and "\<forall>d \<in> set ds. isDigit d"
    and "\<not> wordBefore pv" and "\<not> wordAfter post"
  shows "rx_run creditCardPattern (pv, ds @ post) \<noteq> []"
proof -
  from assms(1) have ne: "ds \<noteq> []" by auto
  then obtain d ds' where ds: "ds = d # ds'" by (cases ds) auto
  with assms(2) have "isWordChar d" by (simp add: isDigit_isWordChar)
  with assms(3) ds have b1: "atom_step WordBoundary (pv, ds @ post) = [(pv, ds @ post)]"
    by simp
  have e: "exactly isDigit 16 (pv, ds @ post) = [(Some (last ds), post)]"
    using assms(1) ne assms(2) by (rule exactly_all)
  from ne assms(2) have "isWordChar (last ds)"
    by (simp add: isDigit_isWordChar)
  with assms(4) have b2: "atom_step WordBoundary (Some (last ds), post) = [(Some (last ds), post)]"
    by simp
  show ?thesis
    by (simp add: rx_run_def creditCardPattern_def b1 e b2 del: atom_step.simps(1))
qed

lemma rx_search_here: "rx_run atoms (pv, s) \<noteq> [] \<Longrightarrow> rx_search atoms pv s"
  by (cases s) simp_all

lemma rx_search_skip:
  "rx_run atoms (if pre = [] then pv else Some (last pre), s) \<noteq> [] \<Longrightarrow>
     rx_search atoms pv (pre @ s)"
proof (induction pre arbitrary: pv)
  case Nil
  then show ?case by (simp add: rx_search_here)
next
  case (Cons c cs)
  have "rx_search atoms (Some c) (cs @ s)"
    using Cons.prems by (intro Cons.IH) (simp split: if_splits)
  then show ?case by simp
qed

lemma creditCard_found:
  assumes "t = pre @ ds @ post" and "length ds = 16" and "\<forall>d \<in> set ds. isDigit d"
    and "pre = [] \<or> \<not> isWordChar (last pre)" and "post = [] \<or> \<not> isWordChar (hd post)"
  shows "rx_match creditCardPattern t"
proof -
  have before: "\<not> wordBefore (if pre = [] then None else Some (last pre))"
    using assms(4) by auto
  have after: "\<not> wordAfter post"
    using assms(5) by (cases post) auto
  have "rx_run creditCardPattern (if pre = [] then None else Some (last pre), ds @ post) \<noteq> []"
    using assms(2,3) before after by (rule creditCard_run)
  then have "rx_search creditCardPattern None (pre @ ds @ post)"
    by (rule rx_search_skip)
  then show ?thesis
    by (simp add: rx_match_def assms(1))
qed

lemma lowered_card_number:
  assumes "raw = pre @ ds @ post" and "\<forall>d \<in> set ds. isDigit d"
    and "pre = [] \<or> last pre < 128 \<and> \<not> isWordChar (last pre)"
    and "post = [] \<or> hd post < 128 \<and> \<not> isWordChar (hd post)"
  shows "\<exists>pre' post'. toLowerCase db raw = pre' @ ds @ post'
           \<and> (pre' = [] \<or> \<not> isWordChar (last pre'))
           \<and> (post' = [] \<or> \<not> isWordChar (hd post'))"
proof -
  let ?pre = "lowerFrom db raw 0 pre"
  let ?post = "lowerFrom db raw (length pre + length ds) post"
  have plain: "\<forall>u \<in> set ds. u < 128 \<and> \<not> (65 \<le> u \<and> u \<le> 90)"
    using assms(2) isDigit_plain by blast
  have split: "toLowerCase db raw = ?pre @ ds @ ?post"
    unfolding assms(1) using plain by (rule toLowerCase_around)
  have before: "?pre = [] \<or> \<not> isWordChar (last ?pre)"
  proof (cases pre rule: rev_cases)
    case Nil
    then show ?thesis by simp
  next
    case (snoc pre0 u)
    with assms(3) have u: "u < 128" "\<not> isWordChar u" by simp_all
    have "?pre = lowerFrom db raw 0 pre0 @ [u]"
      by (simp add: snoc lowerFrom_append lowerUnit_boundary [OF u])
    with u(2) show ?thesis by simp
  qed
  have after: "?post = [] \<or> \<not> isWordChar (hd ?post)"
  proof (cases post)
    case Nil
    then show ?thesis by simp
  next
    case (Cons u rest)
    with assms(4) have u: "u < 128" "\<not> isWordChar u" by simp_all
    show ?thesis
      by (simp add: Cons lowerUnit_boundary [OF u] u(2))
  qed
  from split before after show ?thesis by blast
qed


section \<open>The violation detector of server.js\<close>

lemma pushIf_append: "pushIf b v vs = vs @ (if b then [v] else [])"
  by (simp add: pushIf_def)

lemma detectViolations_scanners:
  "detectViolations db prompt response =
     (if hackingTrigger (scannedText db prompt response) then [illegalActivityViolation] else [])
     @ (if dataTheftTrigger (scannedText db prompt response) then [dataTheftViolation] else [])
     @ (if piiTrigger (scannedText db prompt response) then [piiViolation] else [])
     @ (if harmfulTrigger (scannedText db prompt response) then [harmfulContentViolation] else [])
     @ (if biasTrigger (scannedText db prompt response) then [biasViolation] else [])
     @ (if misinformationTrigger (scannedText db prompt response)
        then [misinformationViolation] else [])"
  unfolding detectViolations_def Let_def pushIf_append by simp

lemma violation_constants:
  "map (\<lambda>v. (vtype v, severity v))
     [illegalActivityViolation, dataTheftViolation, harmfulContentViolation, piiViolation,
      biasViolation, misinformationViolation]
   = [(''illegal_activity'', 9.5), (''data_theft'', 9.0), (''harmful_content'', 9.0),
      (''pii'', 8.5), (''bias'', 6.5), (''misinformation'', 7.0)]"
  by (simp add: illegalActivityViolation_def dataTheftViolation_def
      harmfulContentViolation_def piiViolation_def biasViolation_def
      misinformationViolation_def)

lemma vtype_constants:
  "vtype illegalActivityViolation = ''illegal_activity''"
  "vtype dataTheftViolation = ''data_theft''"
  "vtype harmfulContentViolation = ''harmful_content''"
  "vtype piiViolation = ''pii''"
  "vtype biasViolation = ''bias''"
  "vtype misinformationViolation = ''misinformation''"
  using violation_constants by simp_all

lemma severity_constants:
  "severity illegalActivityViolation = 9.5"
  "severity dataTheftViolation = 9.0"
  "severity harmfulContentViolation = 9.0"
  "severity piiViolation = 8.5"
  "severity biasViolation = 6.5"
  "severity misinformationViolation = 7.0"
  using violation_constants by simp_all


lemma truthy_find:
  "[] \<notin> set ps \<Longrightarrow> truthy (find P ps) = (\<exists>p \<in> set ps. P p)"
  by (induction ps) auto

lemma hackingTrigger_iff:
  "hackingTrigger t = (\<exists>pattern \<in> set hackingPatterns. \<exists>a b. t = a @ units pattern @ b)"
proof -
  have "[] \<notin> set hackingPatterns" by (simp add: hackingPatterns_def)
  then show ?thesis
    by (simp add: hackingTrigger_def truthy_find includes_str_iff)
qed

lemma dataTheftTrigger_iff:
  "dataTheftTrigger t = (\<exists>pattern \<in> set dataTheftPatterns. \<exists>a b. t = a @ units pattern @ b)"
proof -
  have "[] \<notin> set dataTheftPatterns" by (simp add: dataTheftPatterns_def)
  then show ?thesis
    by (simp add: dataTheftTrigger_def truthy_find includes_str_iff)
qed

lemma harmfulTrigger_iff:
  "harmfulTrigger t = (\<exists>pattern \<in> set harmfulPatterns. \<exists>a b. t = a @ units pattern @ b)"
proof -
  have "[] \<notin> set harmfulPatterns" by (simp add: harmfulPatterns_def)
  then show ?thesis
    by (simp add: harmfulTrigger_def truthy_find includes_str_iff)
qed

lemma detectViolations_clean:
  "\<not> hackingTrigger (scannedText db p r) \<Longrightarrow> \<not> dataTheftTrigger (scannedText db p r) \<Longrightarrow>
   \<not> piiTrigger (scannedText db p r) \<Longrightarrow> \<not> harmfulTrigger (scannedText db p r) \<Longrightarrow>
   \<not> biasTrigger (scannedText db p r) \<Longrightarrow> \<not> misinformationTrigger (scannedText db p r) \<Longrightarrow>
   detectViolations db p r = []"
  by (simp add: detectViolations_scanners)

lemma outcome_processInteraction_server:
  "outcome (processInteraction_server db newId now prompt response) =
     (if detectViolations db prompt response = [] then (Approved, Low)
      else if 8 \<le> maxSeverityOf (detectViolations db prompt response) then (Blocked, Critical)
      else if 6 \<le> maxSeverityOf (detectViolations db prompt response) then (Pending, High)
      else (Approved, Medium))"
proof -
  let ?i = "\<lparr> ident = newId, input_text = prompt, output_text = response, timestamp = now,
              status = Approved, severityBucket = Low,
              violations = detectViolations db prompt response,
              agentActions = ([] :: server_action list) \<rparr>"
  have "outcome (processInteraction_server db newId now prompt response)
        = outcome (resolveStatus_server ?i)"
    by (simp add: processInteraction_server_def Let_def outcome_def)
  then show ?thesis
    by (simp add: resolveStatus_server_table) (simp add: outcome_def)
qed

lemma pii_blocks:
  assumes "piiTrigger (scannedText db prompt response)"
  shows "filter (\<lambda>v. vtype v = ''pii'') (detectViolations db prompt response) = [piiViolation]"
    and "status (processInteraction_server db newId now prompt response) = Blocked"
proof -
  show "filter (\<lambda>v. vtype v = ''pii'') (detectViolations db prompt response) = [piiViolation]"
    using assms by (simp add: detectViolations_scanners vtype_constants)
  have mem: "piiViolation \<in> set (detectViolations db prompt response)"
    using assms by (simp add: detectViolations_scanners)
  then have "severity piiViolation \<le> maxSeverityOf (detectViolations db prompt response)"
    by (rule maxSeverityOf_ge)
  then have "8 \<le> maxSeverityOf (detectViolations db prompt response)"
    by (simp add: severity_constants)
  moreover from mem have "detectViolations db prompt response \<noteq> []" by auto
  ultimately have "outcome (processInteraction_server db newId now prompt response)
                   = (Blocked, Critical)"
    by (simp add: outcome_processInteraction_server)
  then show "status (processInteraction_server db newId now prompt response) = Blocked"
    by (simp add: outcome_def)
qed

lemma scanned_card_number_blocks:
  assumes "scannedText db prompt response = pre @ ds @ post"
    and "length ds = 16" and "\<forall>d \<in> set ds. isDigit d"
    and "pre = [] \<or> \<not> isWordChar (last pre)"
    and "post = [] \<or> \<not> isWordChar (hd post)"
  shows "filter (\<lambda>v. vtype v = ''pii'') (detectViolations db prompt response) = [piiViolation]
       \<and> severity piiViolation = 8.5
       \<and> status (processInteraction_server db newId now prompt response) = Blocked"
proof -
  have "rx_match creditCardPattern (scannedText db prompt response)"
    using assms by (rule creditCard_found)
  then have "piiTrigger (scannedText db prompt response)"
    by (simp add: piiTrigger_def)
  then show ?thesis
    by (simp add: pii_blocks severity_constants)
qed

text \<open>
  C2. The claim holds on the text that the detector scans, not on the text as it is
  given: \<open>toLowerCase\<close> can turn a neighbour of the digits into a word character
  (U+212A becomes \<open>k\<close>) and so remove the word boundary. What holds for the local
  pipeline of server.js: when the lower-cased text \<open>prompt + " " + response\<close> contains
  sixteen digits in a row with a word boundary on each side, or when the text as given
  contains them and each neighbour of the run is an end of the text or a Basic Latin
  character that is not a word character, \<open>detectViolations\<close> emits exactly one \<open>pii\<close>
  violation, its severity is 8.5, and \<open>processInteraction\<close> of server.js resolves the
  interaction to \<open>blocked\<close>. The status block of governanceService.ts,
  \<open>determineFinalStatus\<close>, resolves an interaction whose only violation is that one to
  \<open>pending\<close>, \<open>high\<close>.
\<close>

theorem card_number_is_blocked:
  assumes "scannedText db prompt response = pre @ ds @ post
             \<and> (pre = [] \<or> \<not> isWordChar (last pre))
             \<and> (post = [] \<or> \<not> isWordChar (hd post))
           \<or> prompt @ units '' '' @ response = pre @ ds @ post
             \<and> (pre = [] \<or> last pre < 128 \<and> \<not> isWordChar (last pre))
             \<and> (post = [] \<or> hd post < 128 \<and> \<not> isWordChar (hd post))"
    and "length ds = 16" and "\<forall>d \<in> set ds. isDigit d"
  shows "filter (\<lambda>v. vtype v = ''pii'') (detectViolations db prompt response) = [piiViolation]
       \<and> severity piiViolation = 8.5
       \<and> status (processInteraction_server db newId now prompt response) = Blocked
       \<and> outcome (determineFinalStatus (i\<lparr> violations := [piiViolation] \<rparr>)) = (Pending, High)"
proof -
  have "\<exists>pre' post'. scannedText db prompt response = pre' @ ds @ post'
           \<and> (pre' = [] \<or> \<not> isWordChar (last pre'))
           \<and> (post' = [] \<or> \<not> isWordChar (hd post'))"
    using assms(1)
  proof
    assume "scannedText db prompt response = pre @ ds @ post
             \<and> (pre = [] \<or> \<not> isWordChar (last pre))
             \<and> (post = [] \<or> \<not> isWordChar (hd post))"
    then show ?thesis by blast
  next
    assume raw: "prompt @ units '' '' @ response = pre @ ds @ post
             \<and> (pre = [] \<or> last pre < 128 \<and> \<not> isWordChar (last pre))
             \<and> (post = [] \<or> hd post < 128 \<and> \<not> isWordChar (hd post))"
    then have r1: "prompt @ units '' '' @ response = pre @ ds @ post"
      and r2: "pre = [] \<or> last pre < 128 \<and> \<not> isWordChar (last pre)"
      and r3: "post = [] \<or> hd post < 128 \<and> \<not> isWordChar (hd post)"
      by blast+
    show ?thesis
      unfolding scannedText_def by (rule lowered_card_number [OF r1 assms(3) r2 r3])
  qed
  then obtain pre' post' where
    "scannedText db prompt response = pre' @ ds @ post'"
    "pre' = [] \<or> \<not> isWordChar (last pre')"
    "post' = [] \<or> \<not> isWordChar (hd post')"
    by blast
  then have "filter (\<lambda>v. vtype v = ''pii'') (detectViolations db prompt response) = [piiViolation]
       \<and> severity piiViolation = 8.5
       \<and> status (processInteraction_server db newId now prompt response) = Blocked"
    using assms(2,3) by (intro scanned_card_number_blocks) simp_all
  moreover have "outcome (determineFinalStatus (i\<lparr> violations := [piiViolation] \<rparr>))
                 = (Pending, High)"
    by (simp add: determineFinalStatus_table maxSeverityOf_single severity_constants)
  ultimately show ?thesis by simp
qed

text \<open>
  A card number in the response, between a space and a space.
\<close>

theorem card_number_is_blocked_witness:
  "filter (\<lambda>v. vtype v = ''pii'')
      (detectViolations sameUnit (units ''Is this card valid?'')
         (units ''Yes, 4111111111111111 is valid.'')) = [piiViolation]
   \<and> severity piiViolation = 8.5
   \<and> status (processInteraction_server sameUnit ''int_1'' 0 (units ''Is this card valid?'')
        (units ''Yes, 4111111111111111 is valid.'')) = Blocked
   \<and> outcome (determineFinalStatus
        ((pendingInteraction ''interaction_1'' 0 (units ''Is this card valid?'')
            (units ''Yes, 4111111111111111 is valid.'') :: gov_interaction)
           \<lparr> violations := [piiViolation] \<rparr>)) = (Pending, High)"
proof -
  have 1: "units ''Is this card valid?'' @ units '' '' @ units ''Yes, 4111111111111111 is valid.''
           = units ''Is this card valid? Yes, '' @ units ''4111111111111111''
             @ units '' is valid.''
         \<and> (units ''Is this card valid? Yes, '' = []
            \<or> last (units ''Is this card valid? Yes, '') < 128
              \<and> \<not> isWordChar (last (units ''Is this card valid? Yes, '')))
         \<and> (units '' is valid.'' = []
            \<or> hd (units '' is valid.'') < 128 \<and> \<not> isWordChar (hd (units '' is valid.'')))"
    by (simp add: units_def isWordChar_def isDigit_def inRange_def)
  have 2: "length (units ''4111111111111111'') = 16"
    by (simp add: units_def)
  have 3: "\<forall>d \<in> set (units ''4111111111111111''). isDigit d"
    by (simp add: units_def isDigit_def inRange_def)
  show ?thesis
    using card_number_is_blocked [OF disjI2 [OF 1] 2 3, of sameUnit "''int_1''" 0] .
qed

text \<open>
  The prompt is the Kelvin sign followed by sixteen digits, the response is empty. In
  the text as given the digits stand between a character that is not a word character
  and the space; the scanned text is \<open>k4111111111111111\<close> and a space, no scanner
  matches, and the interaction is approved.
\<close>

theorem kelvin_sign_counterexample:
  "(8490 # units ''4111111111111111'') @ units '' '' @ []
     = [8490] @ units ''4111111111111111'' @ units '' ''
   \<and> length (units ''4111111111111111'') = 16
   \<and> list_all isDigit (units ''4111111111111111'')
   \<and> \<not> isWordChar (last [8490]) \<and> \<not> isWordChar (hd (units '' ''))
   \<and> scannedText sameUnit (8490 # units ''4111111111111111'') []
     = units ''k4111111111111111 ''
   \<and> detectViolations sameUnit (8490 # units ''4111111111111111'') [] = []
   \<and> outcome (processInteraction_server sameUnit ''int_1'' 0
        (8490 # units ''4111111111111111'') []) = (Approved, Low)"
proof -
  let ?prompt = "8490 # units ''4111111111111111''"
  have raw: "?prompt @ units '' '' @ [] = [8490] @ units ''4111111111111111'' @ units '' ''
      \<and> length (units ''4111111111111111'') = 16
      \<and> list_all isDigit (units ''4111111111111111'')
      \<and> \<not> isWordChar (last [8490]) \<and> \<not> isWordChar (hd (units '' ''))"
    by (simp add: units_def isWordChar_def isDigit_def inRange_def)
  have scanned: "scannedText sameUnit ?prompt [] = units ''k4111111111111111 ''"
    by (simp add: scannedText_def toLowerCase_def lowerUnit_def units_def)
  have "\<not> hackingTrigger (units ''k4111111111111111 '')
      \<and> \<not> dataTheftTrigger (units ''k4111111111111111 '')
      \<and> \<not> piiTrigger (units ''k4111111111111111 '')
      \<and> \<not> harmfulTrigger (units ''k4111111111111111 '')
      \<and> \<not> biasTrigger (units ''k4111111111111111 '')
      \<and> \<not> misinformationTrigger (units ''k4111111111111111 '')"
    by code_simp
  then have none: "detectViolations sameUnit ?prompt [] = []"
    by (simp add: detectViolations_clean scanned)
  then have "outcome (processInteraction_server sameUnit ''int_1'' 0 ?prompt []) = (Approved, Low)"
    by (simp add: outcome_processInteraction_server)
  with raw scanned none show ?thesis by simp
qed



lemma triggerPhrases_plain:
  "\<forall>phrase \<in> set triggerPhrases. \<forall>u \<in> set (units phrase). u < 128 \<and> \<not> (65 \<le> u \<and> u \<le> 90)"
  by code_simp

lemma trigger_phrase_detected:
  assumes "phrase \<in> set triggerPhrases" and "\<exists>a b. t = a @ units phrase @ b"
  shows "hackingTrigger t \<or> dataTheftTrigger t \<or> harmfulTrigger t \<or> biasTrigger t
         \<or> misinformationTrigger t"
proof -
  from assms(1) have
    "phrase \<in> set hackingPatterns \<or> phrase \<in> set dataTheftPatterns
     \<or> phrase \<in> set harmfulPatterns
     \<or> phrase \<in> set [''all women'', ''all men'', ''people of color are'', ''white people are'']
     \<or> phrase \<in> set [''vaccines cause autism'', ''covid is fake'', ''climate change is a hoax'']"
    by (simp only: triggerPhrases_def set_append Un_iff)
  then consider
      "phrase \<in> set hackingPatterns" | "phrase \<in> set dataTheftPatterns"
    | "phrase \<in> set harmfulPatterns"
    | "phrase \<in> set [''all women'', ''all men'', ''people of color are'', ''white people are'']"
    | "phrase \<in> set [''vaccines cause autism'', ''covid is fake'', ''climate change is a hoax'']"
    by blast
  then show ?thesis
  proof cases
    case 1
    with assms(2) show ?thesis by (auto simp: hackingTrigger_iff)
  next
    case 2
    with assms(2) show ?thesis by (auto simp: dataTheftTrigger_iff)
  next
    case 3
    with assms(2) show ?thesis by (auto simp: harmfulTrigger_iff)
  next
    case 4
    with assms(2) have "\<exists>p \<in> set [''all women'', ''all men'', ''people of color are'',
                               ''white people are'']. includes_str t (units p)"
      unfolding includes_str_iff by blast
    then have "biasTrigger t"
      by (simp add: biasTrigger_def)
    then show ?thesis by simp
  next
    case 5
    with assms(2) have "\<exists>p \<in> set [''vaccines cause autism'', ''covid is fake'',
                               ''climate change is a hoax'']. includes_str t (units p)"
      unfolding includes_str_iff by blast
    then have "misinformationTrigger t"
      by (simp add: misinformationTrigger_def)
    then show ?thesis by simp
  qed
qed

lemma detectViolations_severities:
  "v \<in> set (detectViolations db prompt response) \<Longrightarrow> 6 \<le> severity v"
  by (auto simp: detectViolations_scanners severity_constants split: if_splits)

lemma nonempty_bucket_high:
  assumes "detectViolations db prompt response \<noteq> []"
  shows "level_rank High
           \<le> level_rank (severityBucket (processInteraction_server db newId now prompt response))"
proof -
  from assms obtain v where v: "v \<in> set (detectViolations db prompt response)"
    by (cases "detectViolations db prompt response") auto
  then have "6 \<le> severity v" by (rule detectViolations_severities)
  also from v have "severity v \<le> maxSeverityOf (detectViolations db prompt response)"
    by (rule maxSeverityOf_ge)
  finally have "6 \<le> maxSeverityOf (detectViolations db prompt response)" .
  with assms have "outcome (processInteraction_server db newId now prompt response)
        = (Blocked, Critical)
      \<or> outcome (processInteraction_server db newId now prompt response) = (Pending, High)"
    by (simp add: outcome_processInteraction_server)
  then show ?thesis
    by (auto simp: outcome_def)
qed

lemma trigger_phrase_violation:
  assumes "phrase \<in> set triggerPhrases"
    and "\<exists>a b. prompt @ units '' '' @ response = a @ units phrase @ b"
  shows "detectViolations db prompt response \<noteq> []"
proof -
  from assms(2) obtain a b where ab: "prompt @ units '' '' @ response = a @ units phrase @ b"
    by blast
  have "\<forall>u \<in> set (units phrase). u < 128 \<and> \<not> (65 \<le> u \<and> u \<le> 90)"
    using assms(1) triggerPhrases_plain by blast
  then have "toLowerCase db (a @ units phrase @ b) =
           lowerFrom db (a @ units phrase @ b) 0 a @ units phrase
           @ lowerFrom db (a @ units phrase @ b) (length a + length (units phrase)) b"
    by (rule toLowerCase_around)
  moreover have "scannedText db prompt response = toLowerCase db (a @ units phrase @ b)"
    unfolding scannedText_def ab ..
  ultimately have "\<exists>a b. scannedText db prompt response = a @ units phrase @ b"
    by metis
  with assms(1) have "hackingTrigger (scannedText db prompt response)
      \<or> dataTheftTrigger (scannedText db prompt response)
      \<or> harmfulTrigger (scannedText db prompt response)
      \<or> biasTrigger (scannedText db prompt response)
      \<or> misinformationTrigger (scannedText db prompt response)"
    by (rule trigger_phrase_detected)
  then show ?thesis
    by (auto simp: detectViolations_scanners)
qed

text \<open>
  C9. When \<open>detectViolations\<close> finds nothing in a prompt and a response, appending any
  text to the prompt or to the response gives an interaction whose severity is not
  below that of the clean one, in the order low < medium < high < critical (the clean
  interaction has severity low). When the appended text is a phrase that a phrase
  scanner looks for, the severity becomes high or critical.
\<close>

theorem clean_input_bucket_never_lowered:
  assumes "detectViolations db prompt response = []"
  shows "level_rank (severityBucket (processInteraction_server db newId now prompt response))
           \<le> level_rank (severityBucket
                (processInteraction_server db newId' now' (prompt @ x) response))
       \<and> level_rank (severityBucket (processInteraction_server db newId now prompt response))
           \<le> level_rank (severityBucket
                (processInteraction_server db newId' now' prompt (response @ x)))
       \<and> (phrase \<in> set triggerPhrases \<and> x = units phrase \<longrightarrow>
            level_rank High \<le> level_rank (severityBucket
                (processInteraction_server db newId' now' (prompt @ x) response))
          \<and> level_rank High \<le> level_rank (severityBucket
                (processInteraction_server db newId' now' prompt (response @ x))))"
proof (intro conjI impI)
  have "outcome (processInteraction_server db newId now prompt response) = (Approved, Low)"
    using assms by (simp add: outcome_processInteraction_server)
  then have low: "severityBucket (processInteraction_server db newId now prompt response) = Low"
    by (simp add: outcome_def)
  show "level_rank (severityBucket (processInteraction_server db newId now prompt response))
           \<le> level_rank (severityBucket
                (processInteraction_server db newId' now' (prompt @ x) response))"
    by (simp add: low)
  show "level_rank (severityBucket (processInteraction_server db newId now prompt response))
           \<le> level_rank (severityBucket
                (processInteraction_server db newId' now' prompt (response @ x)))"
    by (simp add: low)
next
  assume p: "phrase \<in> set triggerPhrases \<and> x = units phrase"
  have "(prompt @ x) @ units '' '' @ response = prompt @ units phrase @ (units '' '' @ response)"
    using p by simp
  then have "\<exists>a b. (prompt @ x) @ units '' '' @ response = a @ units phrase @ b" by blast
  with p have "detectViolations db (prompt @ x) response \<noteq> []"
    by (intro trigger_phrase_violation) simp_all
  then show "level_rank High \<le> level_rank (severityBucket
                (processInteraction_server db newId' now' (prompt @ x) response))"
    by (rule nonempty_bucket_high)
next
  assume p: "phrase \<in> set triggerPhrases \<and> x = units phrase"
  have "prompt @ units '' '' @ (response @ x)
        = (prompt @ units '' '' @ response) @ units phrase @ []"
    using p by simp
  then have "\<exists>a b. prompt @ units '' '' @ (response @ x) = a @ units phrase @ b" by blast
  with p have "detectViolations db prompt (response @ x) \<noteq> []"
    by (intro trigger_phrase_violation) simp_all
  then show "level_rank High \<le> level_rank (severityBucket
                (processInteraction_server db newId' now' prompt (response @ x)))"
    by (rule nonempty_bucket_high)
qed

text \<open>
  A misinformation phrase appended to a clean response.
\<close>

theorem clean_input_bucket_never_lowered_witness:
  "level_rank (severityBucket
      (processInteraction_server sameUnit ''int_1'' 0 (units ''Is it warm?'')
         (units ''Yes. '')))
   \<le> level_rank (severityBucket
      (processInteraction_server sameUnit ''int_2'' 1 (units ''Is it warm?'')
         (units ''Yes. '' @ units ''covid is fake'')))
   \<and> level_rank High \<le> level_rank (severityBucket
      (processInteraction_server sameUnit ''int_2'' 1 (units ''Is it warm?'')
         (units ''Yes. '' @ units ''covid is fake'')))"
proof -
  have clean: "detectViolations sameUnit (units ''Is it warm?'')
                 (units ''Yes. '') = []"
    by code_simp
  have phrase: "''covid is fake'' \<in> set triggerPhrases \<and> units ''covid is fake'' = units ''covid is fake''"
    by (simp add: triggerPhrases_def)
  from clean_input_bucket_never_lowered
         [OF clean, of "''int_1''" 0 "''int_2''" 1 "units ''covid is fake''" "''covid is fake''"]
       phrase
  show ?thesis by blast
qed


section \<open>The governance services\<close>

lemma status_determineFinalStatus:
  "status (determineFinalStatus i) \<in> {Approved, Pending, Blocked}"
  by (simp add: determineFinalStatus_def Let_def)

lemma status_finalizeStatus_js:
  "status (finalizeStatus_js i) \<in> {Approved, Pending, Blocked}"
  by (simp add: finalizeStatus_js_def)

lemma agentActions_determineFinalStatus:
  "agentActions (determineFinalStatus i) = agentActions i"
  by (simp add: determineFinalStatus_def Let_def)

lemma processInteraction_js_no_remote:
  assumes "\<not> (useInkeepAgents cfg \<and> inkeepAvailable cfg)"
  shows "processInteraction_js cfg remote interactionId now inp outp =
           Inr ((pendingInteraction interactionId now inp outp)
                  \<lparr> status := Approved, severityBucket := Low,
                    agentActions := [\<lparr> agentName = ''Legacy'', action = ''log'',
                                       details = ''Legacy fallback used'', stamp = now \<rparr>] \<rparr>)"
  by (simp add: assms processInteraction_js_def Let_def try_catch_def finalizeStatus_js_def
      pendingInteraction_def)

lemma processInteraction_js_remote_throws:
  assumes "useInkeepAgents cfg \<and> inkeepAvailable cfg"
  shows "processInteraction_js cfg (Inl e) interactionId now inp outp =
           Inr ((pendingInteraction interactionId now inp outp)
                  \<lparr> status := Approved, severityBucket := Low,
                    agentActions := [\<lparr> agentName = ''GovernanceService'', action = ''log'',
                                       details = ''Processing error: '' @ errorMessage e,
                                       stamp = now \<rparr>] \<rparr>)"
  using assms
  by (simp add: processInteraction_js_def Let_def try_catch_def finalizeStatus_js_def
      pendingInteraction_def)

lemma processInteraction_js_finalizes:
  "\<exists>i. processInteraction_js cfg remote interactionId now inp outp = Inr (finalizeStatus_js i)"
  by (cases remote) (auto simp: processInteraction_js_def Let_def try_catch_def)

lemma processInteraction_js_status:
  "processInteraction_js cfg remote interactionId now inp outp = Inr i \<Longrightarrow>
     status i \<in> {Approved, Pending, Blocked}"
  using processInteraction_js_finalizes [of cfg remote interactionId now inp outp]
    status_finalizeStatus_js
  by auto

text \<open>
  C10. In governanceService.js, when the Inkeep backend is not used (not preferred, or
  not available) or its call throws, \<open>processInteraction\<close> runs no local detection:
  whatever the input and the output are, it returns an interaction with no violation,
  status \<open>approved\<close> and severity \<open>low\<close>.
\<close>

theorem js_service_detects_nothing_locally:
  assumes "\<not> (useInkeepAgents cfg \<and> inkeepAvailable cfg) \<or> (\<exists>e. remote = Inl e)"
  shows "\<exists>i. processInteraction_js cfg remote interactionId now inp outp = Inr i
           \<and> input_text i = inp \<and> output_text i = outp
           \<and> violations i = [] \<and> status i = Approved \<and> severityBucket i = Low"
proof (cases "useInkeepAgents cfg \<and> inkeepAvailable cfg")
  case False
  then show ?thesis
    by (simp add: processInteraction_js_no_remote pendingInteraction_def)
next
  case True
  with assms obtain e where "remote = Inl e" by blast
  with True show ?thesis
    by (simp add: processInteraction_js_remote_throws pendingInteraction_def)
qed

text \<open>
  A prompt with hacking and violence phrases and a response with a card number, while
  the remote call fails.
\<close>

theorem js_service_detects_nothing_locally_witness:
  "\<exists>i. processInteraction_js \<lparr> useInkeepAgents = True, inkeepAvailable = True \<rparr>
          (Inl (JsError ''fetch failed'')) ''interaction_1'' 0
          (units ''how to hack into a bank and kill someone'') (units ''card 4111111111111111'')
          = Inr i
       \<and> input_text i = units ''how to hack into a bank and kill someone''
       \<and> output_text i = units ''card 4111111111111111''
       \<and> violations i = [] \<and> status i = Approved \<and> severityBucket i = Low"
  using js_service_detects_nothing_locally
    [of "\<lparr> useInkeepAgents = True, inkeepAvailable = True \<rparr>" "Inl (JsError ''fetch failed'')"
        "''interaction_1''" 0 "units ''how to hack into a bank and kill someone''"
        "units ''card 4111111111111111''"]
  by simp


lemma processInteraction_ts_local:
  assumes "\<not> shouldUseInkeep cfg"
  shows "processInteraction_ts cfg agents remote interactionId now inp outp =
           Inr (determineFinalStatus
                  (fst (processWithLegacyAgents agents
                          (pendingInteraction interactionId now inp outp))))"
  using assms
  by (simp add: processInteraction_ts_def Let_def split: prod.splits sum.splits)

lemma processInteraction_ts_fallback:
  assumes "shouldUseInkeep cfg"
  shows "processInteraction_ts cfg agents (Inl e) interactionId now inp outp =
           (case processWithLegacyAgents agents (pendingInteraction interactionId now inp outp) of
              (i, Inl e') \<Rightarrow> Inl e'
            | (i, Inr u) \<Rightarrow> Inr (determineFinalStatus i))"
  using assms
  by (simp add: processInteraction_ts_def Let_def processWithInkeepAgents_def
      split: prod.splits sum.splits)

lemma processInteraction_ts_remote:
  assumes "shouldUseInkeep cfg"
  shows "processInteraction_ts cfg agents (Inr res) interactionId now inp outp =
           Inr (determineFinalStatus
                  (fst (processWithInkeepAgents (Inr res) now
                          (pendingInteraction interactionId now inp outp))))"
  using assms
  by (simp add: processInteraction_ts_def Let_def processWithInkeepAgents_def)


text \<open>
  C3. The remote backend is preferred and available, and its analysis call throws.
  \<^item> governanceService.ts runs the legacy agents on the same interaction. When they do
    not throw, \<open>processInteraction\<close> returns, and what it returns is what the local
    path returns for the same input: the status is resolved by
    \<open>determineFinalStatus\<close>, and the actions are those of the legacy agents, none is
    added for the fallback.
  \<^item> governanceService.js catches the error, appends one action \<open>log\<close> of
    \<open>GovernanceService\<close> with the details \<open>Processing error:\<close> and the message, runs
    no local detection, and returns the interaction as \<open>approved\<close>, \<open>low\<close>.
\<close>

theorem remote_failure_falls_back:
  assumes "shouldUseInkeep cfg"
  shows "(snd (processWithLegacyAgents agents (pendingInteraction interactionId now inp outp))
            = Inr ()
          \<longrightarrow> (\<exists>i. processInteraction_ts cfg agents (Inl e) interactionId now inp outp = Inr i
                 \<and> processInteraction_ts (cfg\<lparr> useInkeepAgents := False \<rparr>) agents (Inl e)
                      interactionId now inp outp = Inr i
                 \<and> status i \<in> {Approved, Pending, Blocked}
                 \<and> agentActions i =
                      agentActions (fst (processWithLegacyAgents agents
                                           (pendingInteraction interactionId now inp outp)))))
       \<and> processInteraction_js cfg (Inl e) interactionId now inp outp =
           Inr ((pendingInteraction interactionId now inp outp)
                  \<lparr> status := Approved, severityBucket := Low,
                    agentActions := [\<lparr> agentName = ''GovernanceService'', action = ''log'',
                                       details = ''Processing error: '' @ errorMessage e,
                                       stamp = now \<rparr>] \<rparr>)"
proof (intro conjI impI)
  let ?start = "pendingInteraction interactionId now inp outp :: gov_interaction"
  assume ok: "snd (processWithLegacyAgents agents ?start) = Inr ()"
  obtain i1 where legacy: "processWithLegacyAgents agents ?start = (i1, Inr ())"
    using ok by (cases "processWithLegacyAgents agents ?start") auto
  have local: "\<not> shouldUseInkeep (cfg\<lparr> useInkeepAgents := False \<rparr>)"
    by (simp add: shouldUseInkeep_def)
  have 1: "processInteraction_ts cfg agents (Inl e) interactionId now inp outp
            = Inr (determineFinalStatus i1)"
    using assms legacy by (simp add: processInteraction_ts_fallback)
  have 2: "processInteraction_ts (cfg\<lparr> useInkeepAgents := False \<rparr>) agents (Inl e)
             interactionId now inp outp = Inr (determineFinalStatus i1)"
    using legacy by (simp add: processInteraction_ts_local [OF local])
  have 3: "status (determineFinalStatus i1) \<in> {Approved, Pending, Blocked}"
    by (rule status_determineFinalStatus)
  have 4: "agentActions (determineFinalStatus i1) = agentActions (fst (processWithLegacyAgents agents ?start))"
    using legacy by (simp add: agentActions_determineFinalStatus)
  from 1 2 3 4
  show "\<exists>i. processInteraction_ts cfg agents (Inl e) interactionId now inp outp = Inr i
          \<and> processInteraction_ts (cfg\<lparr> useInkeepAgents := False \<rparr>) agents (Inl e)
               interactionId now inp outp = Inr i
          \<and> status i \<in> {Approved, Pending, Blocked}
          \<and> agentActions i = agentActions (fst (processWithLegacyAgents agents ?start))"
    by blast
next
  show "processInteraction_js cfg (Inl e) interactionId now inp outp =
           Inr ((pendingInteraction interactionId now inp outp)
                  \<lparr> status := Approved, severityBucket := Low,
                    agentActions := [\<lparr> agentName = ''GovernanceService'', action = ''log'',
                                       details = ''Processing error: '' @ errorMessage e,
                                       stamp = now \<rparr>] \<rparr>)"
    using assms by (simp add: processInteraction_js_remote_throws shouldUseInkeep_def)
qed

lemma silent_legacy:
  "processWithLegacyAgents silentAgents i = (i, Inr ())"
  by (simp add: processWithLegacyAgents_def silentAgents_def silentAgent_def)

text \<open>
  A timeout of the remote call, with legacy agents that report nothing.
\<close>

theorem remote_failure_falls_back_witness:
  "processInteraction_ts \<lparr> useInkeepAgents = True, inkeepAvailable = True \<rparr> silentAgents
      (Inl (JsError ''timeout'')) ''interaction_1'' 0 (units ''hello'') (units ''hi'')
   = processInteraction_ts \<lparr> useInkeepAgents = False, inkeepAvailable = True \<rparr> silentAgents
      (Inl (JsError ''timeout'')) ''interaction_1'' 0 (units ''hello'') (units ''hi'')
   \<and> processInteraction_js \<lparr> useInkeepAgents = True, inkeepAvailable = True \<rparr>
      (Inl (JsError ''timeout'')) ''interaction_1'' 0 (units ''hello'') (units ''hi'')
   = Inr ((pendingInteraction ''interaction_1'' 0 (units ''hello'') (units ''hi''))
            \<lparr> status := Approved, severityBucket := Low,
              agentActions := [\<lparr> agentName = ''GovernanceService'', action = ''log'',
                                 details = ''Processing error: timeout'', stamp = 0 \<rparr>] \<rparr>)"
  using remote_failure_falls_back
    [of "\<lparr> useInkeepAgents = True, inkeepAvailable = True \<rparr>" silentAgents
        "''interaction_1''" 0 "units ''hello''" "units ''hi''" "JsError ''timeout''"]
  by (auto simp: shouldUseInkeep_def silent_legacy errorMessage_def)

text \<open>
  The same run in governanceService.ts: the interaction that comes back has no action at
  all, so none with the action \<open>log\<close> that notes the fallback.
\<close>

theorem fallback_log_action_counterexample:
  "processInteraction_ts \<lparr> useInkeepAgents = True, inkeepAvailable = True \<rparr> silentAgents
      (Inl (JsError ''timeout'')) ''interaction_1'' 0 (units ''hello'') (units ''hi'')
   = Inr \<lparr> ident = ''interaction_1'', input_text = units ''hello'',
           output_text = units ''hi'',
           timestamp = 0, status = Approved, severityBucket = Low, violations = [],
           agentActions = [] \<rparr>"
  by (simp add: processInteraction_ts_fallback shouldUseInkeep_def silent_legacy
      determineFinalStatus_def pendingInteraction_def)



section \<open>The availability probe\<close>

lemma probeCandidates_result:
  "fst (probeCandidates net urls) = Inr (list_ex (\<lambda>url. answersOr404 (net url)) urls)"
proof (induction urls)
  case Nil
  show ?case by simp
next
  case (Cons url rest)
  obtain r urls where rest: "probeCandidates net rest = (r, urls)"
    by (cases "probeCandidates net rest")
  with Cons have r: "r = Inr (list_ex (\<lambda>url. answersOr404 (net url)) rest)"
    by simp
  show ?case
  proof (cases "net url")
    case (Rejected e)
    then show ?thesis
      by (simp add: try_catch_def fetch_result_def answersOr404_def rest r)
  next
    case (Response st b)
    then show ?thesis
      by (auto simp: try_catch_def fetch_result_def answersOr404_def ok_def rest r
          split: bool.splits)
  qed
qed

lemma isAvailable_ts_result:
  "isAvailable_ts isEnabled baseUrl net =
     (if isEnabled then (Inr (answers (net (baseUrl @ ''/health''))), [baseUrl @ ''/health''])
      else (Inr False, []))"
  by (cases "net (baseUrl @ ''/health'')")
    (simp_all add: isAvailable_ts_def try_catch_def fetch_result_def answers_def ok_def)

text \<open>
  C5. \<open>isAvailable\<close> always returns a boolean, it never throws. Disabled by
  configuration, it returns \<open>false\<close> and requests nothing. Enabled, the TypeScript
  service requests \<open>/health\<close> once and returns whether the response has a success
  status (\<open>false\<close> when the request is rejected); the JavaScript service returns \<open>true\<close>
  exactly when one of \<open>/health\<close>, \<open>/openapi.json\<close>, \<open>/\<close> answers with a success status or
  with 404, and \<open>false\<close> when each of them is rejected or answers with another status.
\<close>

theorem availability_probe_never_throws:
  "isAvailable_ts False baseUrl net = (Inr False, [])
   \<and> isAvailable_js False baseUrl net = (Inr False, [])
   \<and> isAvailable_ts True baseUrl net =
       (Inr (answers (net (baseUrl @ ''/health''))), [baseUrl @ ''/health''])
   \<and> fst (isAvailable_js True baseUrl net) =
       Inr (answersOr404 (net (baseUrl @ ''/health''))
            \<or> answersOr404 (net (baseUrl @ ''/openapi.json''))
            \<or> answersOr404 (net (baseUrl @ ''/'')))"
  by (simp add: isAvailable_ts_result isAvailable_js_def probeCandidates_result
      del: probeCandidates.simps)

text \<open>
  A server that answers 404 or refuses the connection, seen by the TypeScript probe, and
  one that answers 500, seen by the JavaScript probe.
\<close>

theorem availability_probe_never_throws_witness:
  "isAvailable_ts True ''http://localhost:3003'' (\<lambda>url. Response 404 None)
     = (Inr False, [''http://localhost:3003/health''])
   \<and> isAvailable_ts True ''http://localhost:3003'' (\<lambda>url. Rejected (JsError ''ECONNREFUSED''))
     = (Inr False, [''http://localhost:3003/health''])
   \<and> fst (isAvailable_js True ''http://localhost:3003'' (\<lambda>url. Response 500 None))
     = Inr False"
  using availability_probe_never_throws
      [of "''http://localhost:3003''" "\<lambda>url. Response 404 None"]
    availability_probe_never_throws
      [of "''http://localhost:3003''" "\<lambda>url. Rejected (JsError ''ECONNREFUSED'')"]
    availability_probe_never_throws
      [of "''http://localhost:3003''" "\<lambda>url. Response 500 None"]
  by (simp add: answers_def answersOr404_def)

text \<open>
  The JavaScript probe takes a 404 on \<open>/health\<close> as a sign of life.
\<close>

theorem probe_404_counterexample:
  "isAvailable_js True ''http://localhost:3003'' (\<lambda>url. Response 404 None)
     = (Inr True, [''http://localhost:3003/health''])"
  by (simp add: isAvailable_js_def try_catch_def fetch_result_def ok_def)










lemma processFeedback_ts_succeeds:
  "processFeedback_ts cfg baseUrl post interactionId fb = Inr ()"
  by (simp add: processFeedback_ts_def try_catch_def split: sum.splits)

lemma handleInteractionAction_feedback_frame:
  "map (\<lambda>i. (ident i, status i, severityBucket i, violations i))
       (handleInteractionAction now prev interactionId ''feedback'' rt)
   = map (\<lambda>i. (ident i, status i, severityBucket i, violations i)) prev"
  by (simp add: handleInteractionAction_def comp_def cong: map_cong)

text \<open>
  C7. \<open>GovernanceService.processFeedback\<close> returns normally for every interaction id and
  every feedback payload, whatever the remote feedback call does; it receives no
  interaction and resolves no status. Where feedback is attached to a stored
  interaction, in the dashboard's \<open>handleInteractionAction\<close> with the action
  \<open>feedback\<close>, every interaction keeps its id, status, severity and violations.
\<close>

theorem feedback_keeps_status:
  "processFeedback_ts cfg baseUrl post interactionId fb = Inr ()
   \<and> map (\<lambda>i. (ident i, status i, severityBucket i, violations i))
        (handleInteractionAction now prev interactionId ''feedback'' rt)
     = map (\<lambda>i. (ident i, status i, severityBucket i, violations i)) prev"
proof
  show "processFeedback_ts cfg baseUrl post interactionId fb = Inr ()"
    by (rule processFeedback_ts_succeeds)
  show "map (\<lambda>i. (ident i, status i, severityBucket i, violations i))
        (handleInteractionAction now prev interactionId ''feedback'' rt)
     = map (\<lambda>i. (ident i, status i, severityBucket i, violations i)) prev"
    by (rule handleInteractionAction_feedback_frame)
qed

text \<open>Positive feedback on a blocked interaction: it stays blocked.\<close>

theorem feedback_keeps_status_witness:
  "processFeedback_ts \<lparr> useInkeepAgents = True, inkeepAvailable = True \<rparr>
      ''http://localhost:3003'' (\<lambda>url request. Response 500 None) ''interaction_1''
      \<lparr> rating = Positive, comment = None \<rparr> = Inr ()
   \<and> map status
        (handleInteractionAction 7
           [\<lparr> ident = ''interaction_1'', input_text = units ''how to hack into a bank'',
              output_text = units ''no'', timestamp = 0, status = Blocked,
              severityBucket = Critical, violations = [illegalActivityViolation],
              agentActions = ([] :: agent_action list), userFeedback = None \<rparr>]
           ''interaction_1'' ''feedback'' (Some UiPositive))
     = [Blocked]"
proof -
  let ?prev = "[\<lparr> ident = ''interaction_1'', input_text = units ''how to hack into a bank'',
              output_text = units ''no'', timestamp = 0, status = Blocked,
              severityBucket = Critical, violations = [illegalActivityViolation],
              agentActions = ([] :: agent_action list), userFeedback = None \<rparr>]"
  from feedback_keeps_status
         [of "\<lparr> useInkeepAgents = True, inkeepAvailable = True \<rparr>" "''http://localhost:3003''"
             "\<lambda>url request. Response 500 None" "''interaction_1''"
             "\<lparr> rating = Positive, comment = None \<rparr>" 7 ?prev "Some UiPositive"]
  have a: "processFeedback_ts \<lparr> useInkeepAgents = True, inkeepAvailable = True \<rparr>
      ''http://localhost:3003'' (\<lambda>url request. Response 500 None) ''interaction_1''
      \<lparr> rating = Positive, comment = None \<rparr> = Inr ()"
    and b: "map (\<lambda>i. (ident i, status i, severityBucket i, violations i))
              (handleInteractionAction 7 ?prev ''interaction_1'' ''feedback'' (Some UiPositive))
            = map (\<lambda>i. (ident i, status i, severityBucket i, violations i)) ?prev"
    by simp_all
  have "map status (handleInteractionAction 7 ?prev ''interaction_1'' ''feedback'' (Some UiPositive))
        = map (fst \<circ> snd)
            (map (\<lambda>i. (ident i, status i, severityBucket i, violations i))
               (handleInteractionAction 7 ?prev ''interaction_1'' ''feedback'' (Some UiPositive)))"
    by (simp add: comp_def)
  also have "\<dots> = [Blocked]"
    by (simp only: b) simp
  finally show ?thesis using a by simp
qed

end
